theory Spec2Isabelle
  imports Complex_Main "HOL-Library.Sublist"
begin

section \<open>Python strings\<close>

text \<open>
  A Python \<^verbatim>\<open>str\<close> is a sequence of code points. The model uses \<^typ>\<open>string\<close>, so a
  character is a code point below 256 (the Latin-1 range, which holds every letter of the
  heading keywords and of the fixed German messages). Whitespace is what
  \<^verbatim>\<open>str.split()\<close>, \<^verbatim>\<open>str.strip()\<close> and the regular expression class \<^verbatim>\<open>\s\<close> agree on for
  \<^verbatim>\<open>str\<close> arguments: TAB, LF, VT, FF, CR, the separators 0x1C..0x1F, SPACE, NEL (0x85)
  and NBSP (0xA0).
\<close>

definition is_space :: "char \<Rightarrow> bool" where
  "is_space c = (of_char c \<in> {9, 10, 11, 12, 13, 28, 29, 30, 31, 32, 133, 160 :: nat})"

function re_sub_ws :: "string \<Rightarrow> string" where
  "re_sub_ws [] = []"
| "re_sub_ws (c # cs) =
     (if is_space c then CHR '' '' # re_sub_ws (dropWhile is_space cs) else c # re_sub_ws cs)"
  by pat_completeness auto
termination
  by (relation "measure length") (auto simp: le_imp_less_Suc length_dropWhile_le)

definition replace_newline :: "string \<Rightarrow> string" where
  "replace_newline s = map (\<lambda>c. if c = CHR 0x0A then CHR '' '' else c) s"

definition lstrip :: "string \<Rightarrow> string" where
  "lstrip s = dropWhile is_space s"

definition rstrip :: "string \<Rightarrow> string" where
  "rstrip s = rev (dropWhile is_space (rev s))"

definition strip :: "string \<Rightarrow> string" where
  "strip s = rstrip (lstrip s)"

definition clean_text :: "string \<Rightarrow> string" where
  "clean_text text = strip (replace_newline (re_sub_ws text))"

function str_split :: "string \<Rightarrow> string list" where
  "str_split s =
     (case dropWhile is_space s of
        [] \<Rightarrow> []
      | c # cs \<Rightarrow> takeWhile (\<lambda>x. \<not> is_space x) (c # cs)
                 # str_split (dropWhile (\<lambda>x. \<not> is_space x) (c # cs)))"
  by pat_completeness auto
termination
proof (relation "measure length", goal_cases)
  case 1
  show ?case by simp
next
  case (2 s c cs)
  have "\<not> is_space c"
    using 2 hd_dropWhile [of is_space s] by (metis list.sel(1) list.distinct(1))
  then have "length (dropWhile (\<lambda>x. \<not> is_space x) (c # cs)) \<le> length cs"
    by (simp add: length_dropWhile_le)
  moreover have "length (c # cs) \<le> length s"
    using 2 length_dropWhile_le [of is_space s] by simp
  ultimately show ?case by simp
qed

fun str_join :: "string list \<Rightarrow> string" where
  "str_join [] = []"
| "str_join [w] = w"
| "str_join (w # v # ws) = w @ CHR '' '' # str_join (v # ws)"

declare str_split.simps [simp del]

lemma space_is_space: "is_space CHR '' ''" by (simp add: is_space_def)
lemma newline_is_space: "is_space (CHR 0x0A)" by (simp add: is_space_def)

lemma re_sub_ws_chars: "c \<in> set (re_sub_ws s) \<Longrightarrow> c = CHR '' '' \<or> \<not> is_space c"
  by (induction s arbitrary: c rule: re_sub_ws.induct) (auto split: if_splits)

lemma replace_newline_re_sub_ws: "replace_newline (re_sub_ws s) = re_sub_ws s"
proof -
  have "\<forall>c \<in> set (re_sub_ws s). c \<noteq> CHR 0x0A"
    using re_sub_ws_chars newline_is_space by fastforce
  then show ?thesis
    unfolding replace_newline_def by (simp add: map_idI)
qed


lemma lstrip_re_sub_ws: "lstrip (re_sub_ws s) = re_sub_ws (lstrip s)"
proof (cases s)
  case Nil
  then show ?thesis by (simp add: lstrip_def)
next
  case (Cons c cs)
  show ?thesis
  proof (cases "is_space c")
    case True
    have "dropWhile is_space (re_sub_ws (dropWhile is_space cs)) = re_sub_ws (dropWhile is_space cs)"
    proof (cases "dropWhile is_space cs")
      case Nil
      show ?thesis by (simp add: Nil)
    next
      case (Cons d ds)
      then have "\<not> is_space d"
        using hd_dropWhile [of is_space cs] by (metis list.sel(1) list.distinct(1))
      then show ?thesis by (simp add: Cons)
    qed
    with True Cons show ?thesis by (simp add: lstrip_def space_is_space)
  next
    case False
    with Cons show ?thesis by (simp add: lstrip_def)
  qed
qed

lemma re_sub_ws_word:
  "re_sub_ws w = takeWhile (\<lambda>x. \<not> is_space x) w @ re_sub_ws (dropWhile (\<lambda>x. \<not> is_space x) w)"
  by (induction w) auto

lemma rstrip_Cons:
  "rstrip (a # xs) = (if rstrip xs = [] \<and> is_space a then [] else a # rstrip xs)"
  by (auto simp: rstrip_def dropWhile_append)

lemma rstrip_word_append:
  "\<forall>c \<in> set u. \<not> is_space c \<Longrightarrow> rstrip (u @ xs) = u @ rstrip xs"
  by (induction u) (simp_all add: rstrip_Cons)

lemma rstrip_Nil: "rstrip [] = []"
  by (simp add: rstrip_def)

lemma str_split_words:
  "w \<in> set (str_split s) \<Longrightarrow> w \<noteq> [] \<and> (\<forall>c \<in> set w. \<not> is_space c)"
proof (induction s arbitrary: w rule: str_split.induct)
  case (1 s)
  show ?case
  proof (cases "dropWhile is_space s")
    case Nil
    with "1.prems" show ?thesis by (simp add: str_split.simps [of s])
  next
    case (Cons c cs)
    then have nsp: "\<not> is_space c"
      using hd_dropWhile [of is_space s] by (metis list.sel(1) list.distinct(1))
    from "1.prems" Cons consider
        "w = takeWhile (\<lambda>x. \<not> is_space x) (c # cs)"
      | "w \<in> set (str_split (dropWhile (\<lambda>x. \<not> is_space x) (c # cs)))"
      by (auto simp: str_split.simps [of s])
    then show ?thesis
    proof cases
      case 1
      then show ?thesis using nsp by (auto dest: set_takeWhileD)
    next
      case 2
      then show ?thesis using "1.IH" [OF Cons] by blast
    qed
  qed
qed

lemma str_join_eq_Nil: "[] \<notin> set ws \<Longrightarrow> str_join ws = [] \<longleftrightarrow> ws = []"
  by (induction ws rule: str_join.induct) auto

lemma str_join_Cons:
  "str_join (w # ws) = (if ws = [] then w else w @ CHR '' '' # str_join ws)"
  by (cases ws) auto

lemma strip_re_sub_ws: "strip (re_sub_ws s) = str_join (str_split s)"
proof (induction s rule: str_split.induct)
  case (1 s)
  have strip_eq: "strip (re_sub_ws s) = rstrip (re_sub_ws (dropWhile is_space s))"
    using lstrip_re_sub_ws [of s] by (simp add: strip_def lstrip_def)
  show ?case
  proof (cases "dropWhile is_space s")
    case Nil
    show ?thesis
      by (simp add: Nil strip_eq rstrip_Nil str_split.simps [of s])
  next
    case (Cons c cs)
    define u where "u = takeWhile (\<lambda>x. \<not> is_space x) (c # cs)"
    define r where "r = dropWhile (\<lambda>x. \<not> is_space x) (c # cs)"
    have u_nsp: "\<forall>x \<in> set u. \<not> is_space x"
      unfolding u_def by (auto dest: set_takeWhileD)
    have split_s: "str_split s = u # str_split r"
      using Cons by (simp add: str_split.simps [of s] u_def r_def)
    have IH: "strip (re_sub_ws r) = str_join (str_split r)"
      using "1.IH" [OF Cons] by (simp add: r_def)
    have "re_sub_ws (c # cs) = u @ re_sub_ws r"
      unfolding u_def r_def by (rule re_sub_ws_word)
    then have lhs: "strip (re_sub_ws s) = u @ rstrip (re_sub_ws r)"
      using Cons u_nsp by (simp add: strip_eq rstrip_word_append)
    show ?thesis
    proof (cases r)
      case Nil
      then show ?thesis
        by (simp add: lhs split_s rstrip_Nil str_split.simps [of "[]"])
    next
      case (Cons d ds)
      then have sp: "is_space d"
        using hd_dropWhile [of "\<lambda>x. \<not> is_space x" "c # cs"]
        unfolding r_def by (metis list.sel(1) list.distinct(1))
      define X where "X = re_sub_ws (dropWhile is_space ds)"
      have T: "strip (re_sub_ws r) = rstrip X"
        using lstrip_re_sub_ws [of r] Cons sp by (simp add: strip_def lstrip_def X_def)
      have "re_sub_ws r = CHR '' '' # X"
        using Cons sp by (simp add: X_def)
      then have "rstrip (re_sub_ws r) = (if rstrip X = [] then [] else CHR '' '' # rstrip X)"
        by (simp add: rstrip_Cons space_is_space)
      then have R: "rstrip (re_sub_ws r) =
          (if strip (re_sub_ws r) = [] then [] else CHR '' '' # strip (re_sub_ws r))"
        by (simp only: T)
      have ne: "[] \<notin> set (str_split r)"
        using str_split_words by blast
      show ?thesis
        using str_join_eq_Nil [OF ne]
        by (simp add: lhs split_s R IH str_join_Cons)
    qed
  qed
qed

lemma clean_text_join_split: "clean_text s = str_join (str_split s)"
  by (simp add: clean_text_def replace_newline_re_sub_ws strip_re_sub_ws)

lemma str_split_lstrip: "str_split (dropWhile is_space s) = str_split s"
  by (simp add: str_split.simps [of s] str_split.simps [of "dropWhile is_space s"])

lemma str_split_word_Cons:
  assumes "w \<noteq> []" "\<forall>c \<in> set w. \<not> is_space c"
  shows "str_split (w @ CHR '' '' # xs) = w # str_split xs"
proof -
  obtain c cs where w: "w = c # cs" using assms(1) by (cases w) auto
  have a: "dropWhile is_space (w @ CHR '' '' # xs) = w @ CHR '' '' # xs"
    using assms(2) w by simp
  have b: "takeWhile (\<lambda>x. \<not> is_space x) (w @ CHR '' '' # xs) = w"
    using assms(2) by (simp add: takeWhile_append2 space_is_space)
  have c: "dropWhile (\<lambda>x. \<not> is_space x) (w @ CHR '' '' # xs) = CHR '' '' # xs"
    using assms(2) by (simp add: dropWhile_append2 space_is_space)
  have d: "str_split (CHR '' '' # xs) = str_split xs"
    using str_split_lstrip [of "CHR '' '' # xs"] str_split_lstrip [of xs]
    by (simp add: space_is_space)
  have "str_split (w @ CHR '' '' # xs) =
      (case w @ CHR '' '' # xs of [] \<Rightarrow> []
       | c # cs \<Rightarrow> takeWhile (\<lambda>x. \<not> is_space x) (c # cs)
                 # str_split (dropWhile (\<lambda>x. \<not> is_space x) (c # cs)))"
    by (subst str_split.simps) (simp only: a)
  also have "\<dots> = w # str_split xs"
    unfolding w append_Cons list.case
    using b c d unfolding w append_Cons by (simp only:)
  finally show ?thesis .
qed

lemma str_split_word:
  assumes "w \<noteq> []" "\<forall>c \<in> set w. \<not> is_space c"
  shows "str_split w = [w]"
proof -
  obtain c cs where w: "w = c # cs" using assms(1) by (cases w) auto
  have a: "dropWhile is_space w = w" using assms(2) w by simp
  have b: "takeWhile (\<lambda>x. \<not> is_space x) (c # cs) = c # cs"
    using assms(2) w by simp
  have c: "dropWhile (\<lambda>x. \<not> is_space x) (c # cs) = []"
    using assms(2) w by simp
  have "str_split w =
      (case w of [] \<Rightarrow> []
       | c # cs \<Rightarrow> takeWhile (\<lambda>x. \<not> is_space x) (c # cs)
                 # str_split (dropWhile (\<lambda>x. \<not> is_space x) (c # cs)))"
    by (subst str_split.simps) (simp only: a)
  also have "\<dots> = [w]"
    unfolding w list.case b c by (simp add: str_split.simps [of "[]"])
  finally show ?thesis .
qed

lemma str_split_join:
  "\<forall>w \<in> set ws. w \<noteq> [] \<and> (\<forall>c \<in> set w. \<not> is_space c) \<Longrightarrow> str_split (str_join ws) = ws"
proof (induction ws rule: str_join.induct)
  case 1
  show ?case by (simp add: str_split.simps [of "[]"])
next
  case (2 w)
  then show ?case by (simp add: str_split_word)
next
  case (3 w v ws)
  then show ?case by (simp add: str_split_word_Cons)
qed

lemma str_split_clean_text: "str_split (clean_text s) = str_split s"
  unfolding clean_text_join_split
  by (rule str_split_join) (use str_split_words in blast)

text \<open>
  C8: normalisation is idempotent, \<^verbatim>\<open>clean_text(clean_text(x)) == clean_text(x)\<close>; it
  replaces every whitespace run (newlines included) by one space and trims both ends, which
  is to say that its result is the words of the input joined by single spaces; and it is a
  total function of its input string.
\<close>

theorem clean_text_idempotent:
  "clean_text (clean_text x) = clean_text x \<and> clean_text x = str_join (str_split x)"
  using str_split_clean_text [of x] by (simp add: clean_text_join_split)

section \<open>Exceptions, ranges and slices\<close>

text \<open>
  A raised exception is a value: its class and its message \<^verbatim>\<open>str(e)\<close>. The classes are
  the built-in ones the code can raise and those of \<^verbatim>\<open>requests.exceptions\<close> that the
  \<^verbatim>\<open>except\<close> clauses of the source name, with the two timeouts of that library:
  \<^verbatim>\<open>ConnectTimeout\<close>, which inherits from \<^verbatim>\<open>ConnectionError\<close> and from \<^verbatim>\<open>Timeout\<close>, and
  \<^verbatim>\<open>ReadTimeout\<close>, which inherits from \<^verbatim>\<open>Timeout\<close>. An exception that is an instance
  of none of them is an \<^verbatim>\<open>OtherException\<close>. A function that can raise returns
  \<open>exn + 'a\<close>.
\<close>

datatype exn_class =
  KeyError | ValueError | TypeError | IndexError | AttributeError
  | ConnectionError | ConnectTimeout | ReadTimeout | Timeout | OtherException

datatype exn = Exn exn_class string

text \<open>
  \<^verbatim>\<open>range(start, stop, step)\<close>: a zero step raises \<^verbatim>\<open>ValueError\<close>; a positive step counts
  up while below \<open>stop\<close>, a negative one counts down while above it.
\<close>

function range_from :: "int \<Rightarrow> int \<Rightarrow> int \<Rightarrow> int list" where
  "range_from i stop step =
     (if (0 < step \<and> i < stop) \<or> (step < 0 \<and> stop < i)
      then i # range_from (i + step) stop step else [])"
  by pat_completeness auto
termination
  by (relation "measure (\<lambda>(i, stop, step). nat (if 0 < step then stop - i else i - stop))") auto

declare range_from.simps [simp del]

definition py_range :: "int \<Rightarrow> int \<Rightarrow> int \<Rightarrow> exn + int list" where
  "py_range start stop step =
     (if step = 0 then Inl (Exn ValueError ''range() arg 3 must not be zero'')
      else Inr (range_from start stop step))"

text \<open>
  \<^verbatim>\<open>xs[lo:hi]\<close>: a negative bound counts from the end, and both bounds are clamped to
  the list.
\<close>

definition slice_index :: "nat \<Rightarrow> int \<Rightarrow> nat" where
  "slice_index n j = (if j < 0 then nat (max 0 (int n + j)) else min (nat j) n)"

definition py_slice :: "'a list \<Rightarrow> int \<Rightarrow> int \<Rightarrow> 'a list" where
  "py_slice xs lo hi =
     (let a = slice_index (length xs) lo; b = slice_index (length xs) hi
      in take (b - a) (drop a xs))"


section \<open>document_processor.py: chunking (lines 92 to 111)\<close>

text \<open>
  The dictionaries the processor builds itself always hold the same keys, so they are
  records: a segment (\<^verbatim>\<open>title\<close>, \<^verbatim>\<open>text\<close>, \<^verbatim>\<open>page_number\<close>), and a chunk with its
  metadata. The field names carry a prefix where the key alone is a keyword or is used by
  another record.
\<close>

record segment =
  seg_title :: string
  seg_text :: string
  seg_page_number :: int

record chunk_metadata =
  md_title :: string
  md_filename :: string
  md_page_number :: int
  md_chunk_index :: int
  md_pdf_path :: string

record chunk =
  chunk_text :: string
  chunk_metadata :: chunk_metadata

text \<open>
  One pass of the inner loop: the window \<^verbatim>\<open>words[i:i + chunk_size]\<close> joined by spaces,
  the counter incremented, the chunk appended. The loop state is the pair
  \<open>(final_segments, chunk_counter)\<close>.
\<close>

definition append_chunk ::
  "int \<Rightarrow> string \<Rightarrow> string \<Rightarrow> segment \<Rightarrow> string list \<Rightarrow> int
    \<Rightarrow> chunk list \<times> int \<Rightarrow> chunk list \<times> int" where
  "append_chunk chunk_size filename pdf_path seg words i st =
     (let chunk = str_join (py_slice words i (i + chunk_size));
          chunk_counter = snd st + 1
      in (fst st @
            [\<lparr>chunk_text = chunk,
              chunk_metadata =
                \<lparr>md_title = seg_title seg, md_filename = filename,
                 md_page_number = seg_page_number seg, md_chunk_index = chunk_counter,
                 md_pdf_path = pdf_path\<rparr>\<rparr>],
          chunk_counter))"

text \<open>
  The outer loop over \<open>all_segments\<close>. \<^verbatim>\<open>range\<close> is evaluated once per segment, so a zero
  stride raises only when there is a segment.
\<close>

fun chunk_segments ::
  "int \<Rightarrow> int \<Rightarrow> string \<Rightarrow> string \<Rightarrow> segment list \<Rightarrow> chunk list \<times> int
    \<Rightarrow> exn + chunk list \<times> int" where
  "chunk_segments chunk_size overlap filename pdf_path [] st = Inr st"
| "chunk_segments chunk_size overlap filename pdf_path (seg # segs) st =
     (let words = str_split (seg_text seg) in
      case py_range 0 (int (length words)) (chunk_size - overlap) of
        Inl e \<Rightarrow> Inl e
      | Inr idxs \<Rightarrow>
          chunk_segments chunk_size overlap filename pdf_path segs
            (fold (append_chunk chunk_size filename pdf_path seg words) idxs st))"

subsection \<open>Windows of a section\<close>

lemma py_slice_window:
  assumes "0 \<le> i" "0 \<le> c"
  shows "py_slice xs i (i + c) = take (nat c) (drop (nat i) xs)"
proof (cases "nat i \<le> length xs")
  case True
  with assms show ?thesis
    by (simp add: py_slice_def slice_index_def Let_def min_def nat_add_distrib) 
next
  case False
  with assms show ?thesis
    by (simp add: py_slice_def slice_index_def Let_def min_def)
qed

lemma set_py_slice: "set (py_slice xs lo hi) \<subseteq> set xs"
  unfolding py_slice_def Let_def
  by (meson set_take_subset set_drop_subset subset_trans)


lemma fold_append_chunk:
  "\<exists>new. fold (append_chunk chunk_size filename pdf_path seg words) idxs (acc, k)
            = (acc @ new, k + int (length idxs))
     \<and> map chunk_text new = map (\<lambda>i. str_join (py_slice words i (i + chunk_size))) idxs
     \<and> map (\<lambda>c. md_chunk_index (chunk_metadata c)) new
         = map (\<lambda>j. k + 1 + int j) [0..<length idxs]"
proof (induction idxs arbitrary: acc k)
  case Nil
  show ?case by simp
next
  case (Cons i idxs)
  define c where "c = \<lparr>chunk_text = str_join (py_slice words i (i + chunk_size)),
      chunk_metadata = \<lparr>md_title = seg_title seg, md_filename = filename,
        md_page_number = seg_page_number seg, md_chunk_index = k + 1,
        md_pdf_path = pdf_path\<rparr>\<rparr>"
  have step: "append_chunk chunk_size filename pdf_path seg words i (acc, k) = (acc @ [c], k + 1)"
    by (simp add: append_chunk_def Let_def c_def)
  from Cons.IH [of "acc @ [c]" "k + 1"] obtain new where
    new: "fold (append_chunk chunk_size filename pdf_path seg words) idxs (acc @ [c], k + 1)
            = ((acc @ [c]) @ new, k + 1 + int (length idxs))"
      "map chunk_text new = map (\<lambda>i. str_join (py_slice words i (i + chunk_size))) idxs"
      "map (\<lambda>c. md_chunk_index (chunk_metadata c)) new
         = map (\<lambda>j. k + 1 + 1 + int j) [0..<length idxs]"
    by blast
  have idx: "map (\<lambda>j. k + 1 + int j) [0..<length (i # idxs)]
      = (k + 1) # map (\<lambda>j. k + 1 + 1 + int j) [0..<length idxs]"
  proof -
    have "[0..<length (i # idxs)] = 0 # map Suc [0..<length idxs]"
      by (simp add: upt_conv_Cons map_Suc_upt del: upt_Suc)
    then show ?thesis by (simp add: o_def)
  qed
  show ?case
  proof (intro exI [of _ "c # new"] conjI)
    show "fold (append_chunk chunk_size filename pdf_path seg words) (i # idxs) (acc, k)
        = (acc @ c # new, k + int (length (i # idxs)))"
      using new(1) by (simp add: step)
    show "map chunk_text (c # new)
        = map (\<lambda>i. str_join (py_slice words i (i + chunk_size))) (i # idxs)"
      using new(2) by (simp add: c_def)
    show "map (\<lambda>c. md_chunk_index (chunk_metadata c)) (c # new)
        = map (\<lambda>j. k + 1 + int j) [0..<length (i # idxs)]"
      unfolding idx using new(3) by (simp add: c_def)
  qed
qed

lemma str_split_join_slice:
  "str_split (str_join (py_slice (str_split s) lo hi)) = py_slice (str_split s) lo hi"
proof (rule str_split_join)
  show "\<forall>w \<in> set (py_slice (str_split s) lo hi). w \<noteq> [] \<and> (\<forall>c \<in> set w. \<not> is_space c)"
    using set_py_slice [of "str_split s" lo hi] str_split_words [of _ s] by blast
qed

lemma range_from_Nil: "stop \<le> i \<Longrightarrow> 0 < step \<Longrightarrow> range_from i stop step = []"
  by (subst range_from.simps) simp

lemma range_from_Cons:
  "i < stop \<Longrightarrow> 0 < step \<Longrightarrow> range_from i stop step = i # range_from (i + step) stop step"
  by (subst range_from.simps) simp

lemma range_from_nonpos_step: "0 \<le> stop \<Longrightarrow> step \<le> 0 \<Longrightarrow> range_from 0 stop step = []"
  by (subst range_from.simps) simp

lemma windows_concat:
  assumes "0 \<le> ov" "ov < cs"
  shows "0 \<le> i \<Longrightarrow>
    concat (map (\<lambda>j. drop (nat ov) (py_slice xs j (j + cs)))
              (range_from i (int (length xs)) (cs - ov)))
      = drop (nat i + nat ov) xs"
proof (induction i "int (length xs)" "cs - ov" rule: range_from.induct)
  case (1 i)
  show ?case
  proof (cases "i < int (length xs)")
    case True
    have rec: "concat (map (\<lambda>j. drop (nat ov) (py_slice xs j (j + cs)))
                (range_from (i + (cs - ov)) (int (length xs)) (cs - ov)))
        = drop (nat (i + (cs - ov)) + nat ov) xs"
      using "1.hyps" [OF _ ] True assms "1.prems" by simp
    have "py_slice xs i (i + cs) = take (nat cs) (drop (nat i) xs)"
      using assms "1.prems" by (intro py_slice_window) simp_all
    moreover have "nat cs - nat ov = nat (cs - ov)"
      using assms by simp
    ultimately have w: "drop (nat ov) (py_slice xs i (i + cs))
        = take (nat (cs - ov)) (drop (nat i + nat ov) xs)"
      by (simp add: drop_take add.commute)
    have idx: "nat (i + (cs - ov)) + nat ov = nat (cs - ov) + (nat i + nat ov)"
      using assms "1.prems" by simp
    have split: "take (nat (cs - ov)) (drop (nat i + nat ov) xs)
          @ drop (nat (cs - ov) + (nat i + nat ov)) xs = drop (nat i + nat ov) xs"
      using append_take_drop_id [of "nat (cs - ov)" "drop (nat i + nat ov) xs"] by simp
    have unroll: "range_from i (int (length xs)) (cs - ov)
        = i # range_from (i + (cs - ov)) (int (length xs)) (cs - ov)"
      using True assms by (intro range_from_Cons) simp_all
    have "concat (map (\<lambda>j. drop (nat ov) (py_slice xs j (j + cs)))
              (range_from i (int (length xs)) (cs - ov)))
        = drop (nat ov) (py_slice xs i (i + cs))
          @ concat (map (\<lambda>j. drop (nat ov) (py_slice xs j (j + cs)))
              (range_from (i + (cs - ov)) (int (length xs)) (cs - ov)))"
      by (simp only: unroll list.map concat.simps)
    also have "\<dots> = take (nat (cs - ov)) (drop (nat i + nat ov) xs)
          @ drop (nat (cs - ov) + (nat i + nat ov)) xs"
      by (simp only: rec w idx)
    finally show ?thesis
      by (simp only: split)
  next
    case False
    then show ?thesis
      using assms "1.prems" by (simp add: range_from_Nil)
  qed
qed

lemma windows_successively:
  assumes "0 \<le> ov" "ov < cs"
  shows "0 \<le> i \<Longrightarrow>
    successively (\<lambda>w w'. suffix (take (nat ov) w') w)
      (map (\<lambda>j. py_slice xs j (j + cs)) (range_from i (int (length xs)) (cs - ov)))"
proof (induction i "int (length xs)" "cs - ov" rule: range_from.induct)
  case (1 i)
  show ?case
  proof (cases "i < int (length xs)")
    case True
    let ?i' = "i + (cs - ov)"
    have rec: "successively (\<lambda>w w'. suffix (take (nat ov) w') w)
        (map (\<lambda>j. py_slice xs j (j + cs)) (range_from ?i' (int (length xs)) (cs - ov)))"
      using "1.hyps" True assms "1.prems" by simp
    show ?thesis
    proof (cases "?i' < int (length xs)")
      case False
      then show ?thesis
        using True assms by (simp add: range_from_Cons range_from_Nil)
    next
      case next_in: True
      have "py_slice xs i (i + cs)
          = take (nat (cs - ov)) (drop (nat i) xs) @ take (nat ov) (drop (nat ?i') xs)"
      proof -
        have "nat cs = nat (cs - ov) + nat ov" using assms by simp
        moreover have "nat ?i' = nat (cs - ov) + nat i" using assms "1.prems" by simp
        moreover have "py_slice xs i (i + cs) = take (nat cs) (drop (nat i) xs)"
          using assms "1.prems" by (intro py_slice_window) simp_all
        ultimately show ?thesis
          by (simp add: take_add)
      qed
      moreover have "take (nat ov) (py_slice xs ?i' (?i' + cs)) = take (nat ov) (drop (nat ?i') xs)"
      proof -
        have "py_slice xs ?i' (?i' + cs) = take (nat cs) (drop (nat ?i') xs)"
          using assms "1.prems" by (intro py_slice_window) simp_all
        moreover have "min (nat ov) (nat cs) = nat ov" using assms by simp
        ultimately show ?thesis by simp
      qed
      ultimately have "suffix (take (nat ov) (py_slice xs ?i' (?i' + cs))) (py_slice xs i (i + cs))"
        by (simp add: suffix_def)
      then show ?thesis
        using rec True next_in assms
        by (simp add: range_from_Cons [of i] range_from_Cons [of ?i'])
    qed
  next
    case False
    then show ?thesis
      using assms by (simp add: range_from_Nil)
  qed
qed


lemma chunk_segments_single:
  assumes "chunk_size \<noteq> overlap"
  shows "chunk_segments chunk_size overlap filename pdf_path (seg # segs) st =
    chunk_segments chunk_size overlap filename pdf_path segs
      (fold (append_chunk chunk_size filename pdf_path seg (str_split (seg_text seg)))
         (range_from 0 (int (length (str_split (seg_text seg)))) (chunk_size - overlap)) st)"
  using assms by (simp add: py_range_def Let_def)

lemma chunk_segments_degenerate:
  assumes "chunk_size \<le> overlap"
  shows "chunk_segments chunk_size overlap filename pdf_path segs st =
     (if overlap = chunk_size \<and> segs \<noteq> []
      then Inl (Exn ValueError ''range() arg 3 must not be zero'') else Inr st)"
proof (cases "overlap = chunk_size")
  case True
  then show ?thesis by (cases segs) (simp_all add: py_range_def)
next
  case False
  with assms have neg: "chunk_size - overlap < 0" by simp
  have "chunk_segments chunk_size overlap filename pdf_path segs st = Inr st"
  proof (induction segs)
    case Nil
    show ?case by simp
  next
    case (Cons seg segs)
    have "range_from 0 (int (length (str_split (seg_text seg)))) (chunk_size - overlap) = []"
      using neg by (intro range_from_nonpos_step) simp_all
    then show ?case
      using neg Cons.IH by (simp add: py_range_def)
  qed
  with False show ?thesis by simp
qed

lemma str_split_replicate:
  "str_split (str_join (replicate n ''w'')) = replicate n ''w''"
  by (rule str_split_join) (simp add: is_space_def)



lemma chunk_segments_append:
  "chunk_segments chunk_size overlap filename pdf_path (segs @ segs') st =
     (case chunk_segments chunk_size overlap filename pdf_path segs st of
        Inl e \<Rightarrow> Inl e
      | Inr st' \<Rightarrow> chunk_segments chunk_size overlap filename pdf_path segs' st')"
  by (induction segs arbitrary: st) (simp_all add: Let_def split: sum.splits)

section \<open>document_processor.py: segmentation (lines 56 to 90)\<close>

text \<open>
  The section pattern is
  \<^verbatim>\<open>(?m)^(?:\s*(Modul|Modulname|Inhalt|...|Lehrformen)[^:]*:)\<close> with \<^verbatim>\<open>re.IGNORECASE\<close>.
  Under \<^verbatim>\<open>IGNORECASE\<close> a pattern letter matches a character with the same lower-case
  form; below code point 256 lower-casing moves \<open>A..Z\<close> and the Latin-1 capitals
  (0xC0..0xDE without the multiplication sign 0xD7) up by 32.
\<close>

definition lower :: "char \<Rightarrow> char" where
  "lower c =
     (let n = (of_char c :: nat)
      in if (65 \<le> n \<and> n \<le> 90) \<or> (192 \<le> n \<and> n \<le> 222 \<and> n \<noteq> 215)
         then char_of (n + 32) else c)"

text \<open>The alternatives of the capture group, in the order of the pattern.\<close>

definition section_keywords :: "string list" where
  "section_keywords =
     [''Modul'', ''Modulname'', ''Inhalt'', ''Ziele'', ''Leistungspunkte'', ''Dauer'',
      ''Voraussetzungen'', ''Studienleistungen'', ''Empfohlene Literatur'',
      ''Pr'' @ [CHR 0xFC] @ ''fungen'', ''Lehrformen'']"

definition ci_prefix :: "string \<Rightarrow> string \<Rightarrow> bool" where
  "ci_prefix kw t \<longleftrightarrow>
     length kw \<le> length t \<and> map lower (take (length kw) t) = map lower kw"

text \<open>
  One attempt to match the pattern at a position where \<^verbatim>\<open>^\<close> holds. Every keyword
  starts with a letter, so \<^verbatim>\<open>\s*\<close> can only stop at the end of the whitespace run. The
  group is the first alternative that is a prefix there (case ignored) and the match
  ends with the first colon after it; \<^verbatim>\<open>[^:]*:\<close> fails when no colon follows, and then
  no other alternative helps, since no keyword holds a colon. The result is the text of
  group 1 and the text after the match. \<^verbatim>\<open>re.match(section_pattern, part)\<close> succeeds
  exactly when \<open>match_section part\<close> is not \<open>None\<close>.
\<close>

definition match_section :: "string \<Rightarrow> (string \<times> string) option" where
  "match_section s =
     (let t = dropWhile is_space s in
      case find (\<lambda>kw. ci_prefix kw t) section_keywords of
        None \<Rightarrow> None
      | Some kw \<Rightarrow>
          (let r = drop (length kw) t in
           if CHR '':'' \<in> set r
           then Some (take (length kw) t, tl (dropWhile (\<lambda>c. c \<noteq> CHR '':'') r))
           else None))"

lemma match_section_length:
  assumes "match_section s = Some (g, rest)"
  shows "length rest < length s"
proof -
  define t where "t = dropWhile is_space s"
  from assms obtain kw where kw: "find (\<lambda>kw. ci_prefix kw t) section_keywords = Some kw"
    and colon: "CHR '':'' \<in> set (drop (length kw) t)"
    and rest: "rest = tl (dropWhile (\<lambda>c. c \<noteq> CHR '':'') (drop (length kw) t))"
    by (auto simp: match_section_def Let_def t_def split: option.splits if_splits)
  have "dropWhile (\<lambda>c. c \<noteq> CHR '':'') (drop (length kw) t) \<noteq> []"
    using colon by (simp add: dropWhile_eq_Nil_conv) 
  then have "length rest < length (dropWhile (\<lambda>c. c \<noteq> CHR '':'') (drop (length kw) t))"
    unfolding rest by (cases "dropWhile (\<lambda>c. c \<noteq> CHR '':'') (drop (length kw) t)") simp_all
  also have "\<dots> \<le> length (drop (length kw) t)"
    by (rule length_dropWhile_le)
  also have "\<dots> \<le> length t" by simp
  also have "\<dots> \<le> length s" unfolding t_def by (rule length_dropWhile_le)
  finally show ?thesis .
qed

text \<open>
  \<^verbatim>\<open>re.split(section_pattern, s)\<close>: the scan moves through the string; \<open>bol\<close> says
  whether \<^verbatim>\<open>^\<close> holds at the current position (the start of the string, or just after
  a line feed) and \<open>piece\<close> is the text since the last match. A match contributes the
  piece before it and its group 1; the scan goes on after the colon that ends it.
\<close>

function re_split_section :: "bool \<Rightarrow> string \<Rightarrow> string \<Rightarrow> string list" where
  "re_split_section bol piece [] = [piece]"
| "re_split_section bol piece (c # cs) =
     (case (if bol then match_section (c # cs) else None) of
        Some (g, rest) \<Rightarrow> piece # g # re_split_section False [] rest
      | None \<Rightarrow> re_split_section (c = CHR 0x0A) (piece @ [c]) cs)"
  by pat_completeness auto
termination
  by (relation "measure (\<lambda>(bol, piece, s). length s)")
     (auto split: if_splits dest: match_section_length)

definition re_split :: "string \<Rightarrow> string list" where
  "re_split s = re_split_section True [] s"

text \<open>
  A page of \<open>pages_data\<close>, and the loop over the pieces of a page that has a heading:
  the state is \<open>(current_title, all_segments)\<close>, and \<^verbatim>\<open>current_title or "Abschnitt"\<close>
  takes the sentinel when the title is empty.
\<close>

record page =
  page_text :: string
  page_number :: int

fun split_parts :: "int \<Rightarrow> string list \<Rightarrow> string \<times> segment list \<Rightarrow> string \<times> segment list" where
  "split_parts page_num [] st = st"
| "split_parts page_num (part # parts) (current_title, all_segments) =
     (if match_section part \<noteq> None
      then split_parts page_num parts (strip part, all_segments)
      else
        (let cleaned_part = clean_text part in
         if 10 < length (str_split cleaned_part)
         then split_parts page_num parts
                (current_title,
                 all_segments @
                   [\<lparr>seg_title = (if current_title = [] then ''Abschnitt'' else current_title),
                     seg_text = cleaned_part, seg_page_number = page_num\<rparr>])
         else split_parts page_num parts (current_title, all_segments)))"

fun collect_segments :: "page list \<Rightarrow> segment list \<Rightarrow> segment list" where
  "collect_segments [] all_segments = all_segments"
| "collect_segments (page_data # pages_data) all_segments =
     (let text = page_text page_data;
          page_num = page_number page_data;
          cleaned = clean_text text;
          pieces = re_split cleaned
      in if length pieces < 2
         then (if 10 < length (str_split cleaned)
               then collect_segments pages_data
                      (all_segments @
                         [\<lparr>seg_title = ''Gesamtdokument'', seg_text = cleaned,
                           seg_page_number = page_num\<rparr>])
               else collect_segments pages_data all_segments)
         else collect_segments pages_data (snd (split_parts page_num pieces ([], all_segments))))"

text \<open>
  \<^verbatim>\<open>segment_document\<close> with the two configuration values it reads as parameters;
  \<open>pdf_path\<close> stands for \<^verbatim>\<open>str(pdf_path.absolute())\<close>.
\<close>

definition segment_document ::
  "int \<Rightarrow> int \<Rightarrow> page list \<Rightarrow> string \<Rightarrow> string \<Rightarrow> exn + chunk list" where
  "segment_document chunk_size overlap pages_data filename pdf_path =
     (let all_segments = collect_segments pages_data [] in
      case chunk_segments chunk_size overlap filename pdf_path all_segments ([], 0) of
        Inl e \<Rightarrow> Inl e
      | Inr (final_segments, chunk_counter) \<Rightarrow> Inr final_segments)"

section \<open>config.py: validation (lines 83 to 87)\<close>

text \<open>
  The loaded configuration is a dictionary of sections; validation looks at its keys only,
  so the type of the sections is left open.
\<close>

definition required_keys :: "string list" where
  "required_keys = [''app'', ''chroma'', ''ollama'', ''documents'', ''spacy'', ''logging'']"

definition validate_config :: "(string \<rightharpoonup> 'a) \<Rightarrow> exn + unit" where
  "validate_config cfg =
     (case filter (\<lambda>key. cfg key = None) required_keys of
        [] \<Rightarrow> Inr ()
      | key # _ \<Rightarrow> Inl (Exn ValueError (''Missing required configuration key: '' @ key)))"

section \<open>Properties of the chunking stage\<close>

text \<open>
  C1 (as amended): for every section body and every configuration with
  \<open>0 \<le> overlap < chunk_size\<close>, the chunking loop returns normally, and the word windows
  of the chunks it appends for that section, concatenated in order after the first
  \<open>overlap\<close> words of every window but the first are dropped, are exactly the
  whitespace-delimited words of the section. The dropped words of a window repeat the end
  of the window before it; they are \<open>overlap\<close> words whenever the window has that many.
  The section is processed from any loop state \<open>(acc, k)\<close>, which is how the loop reaches
  it inside a document (\<open>chunk_segments_append\<close>).
\<close>

theorem chunk_reconstruction:
  assumes "0 \<le> overlap" "overlap < chunk_size"
  shows "\<exists>chunks.
    chunk_segments chunk_size overlap filename pdf_path [seg] (acc, k)
      = Inr (acc @ chunks, k + int (length chunks))
    \<and> (case map (\<lambda>c. str_split (chunk_text c)) chunks of
          [] \<Rightarrow> []
        | w # ws \<Rightarrow> w @ concat (map (drop (nat overlap)) ws))
       = str_split (seg_text seg)
    \<and> successively (\<lambda>w w'. suffix (take (nat overlap) w') w)
          (map (\<lambda>c. str_split (chunk_text c)) chunks)"
proof -
  define words where "words = str_split (seg_text seg)"
  define idxs where "idxs = range_from 0 (int (length words)) (chunk_size - overlap)"
  obtain new where
    run: "fold (append_chunk chunk_size filename pdf_path seg words) idxs (acc, k)
            = (acc @ new, k + int (length idxs))"
    and texts: "map chunk_text new
            = map (\<lambda>i. str_join (py_slice words i (i + chunk_size))) idxs"
    using fold_append_chunk [of chunk_size filename pdf_path seg words idxs acc k] by blast
  have len: "length new = length idxs"
    using texts by (metis length_map)
  have "map (\<lambda>c. str_split (chunk_text c)) new = map str_split (map chunk_text new)"
    by simp
  also have "\<dots> = map (\<lambda>i. py_slice words i (i + chunk_size)) idxs"
    unfolding texts words_def by (simp add: str_split_join_slice)
  finally have windows:
    "map (\<lambda>c. str_split (chunk_text c)) new = map (\<lambda>i. py_slice words i (i + chunk_size)) idxs" .
  have result: "chunk_segments chunk_size overlap filename pdf_path [seg] (acc, k)
      = Inr (acc @ new, k + int (length new))"
    using assms chunk_segments_single [of chunk_size overlap filename pdf_path seg "[]" "(acc, k)"]
    by (simp add: run len words_def [symmetric] idxs_def [symmetric])
  have "(case map (\<lambda>i. py_slice words i (i + chunk_size)) idxs of
          [] \<Rightarrow> []
        | w # ws \<Rightarrow> w @ concat (map (drop (nat overlap)) ws)) = words"
  proof (cases "words = []")
    case True
    then have "idxs = []"
      using assms by (simp add: idxs_def range_from_Nil)
    with True show ?thesis by simp
  next
    case False
    let ?s = "chunk_size - overlap"
    have unroll: "idxs = 0 # range_from ?s (int (length words)) ?s"
      using False assms range_from_Cons [of 0 "int (length words)" ?s] by (simp add: idxs_def)
    have rest: "concat (map (\<lambda>j. drop (nat overlap) (py_slice words j (j + chunk_size)))
                  (range_from ?s (int (length words)) ?s))
        = drop (nat ?s + nat overlap) words"
      using windows_concat [OF assms, of ?s words] assms by simp
    have first: "py_slice words 0 (0 + chunk_size) = take (nat chunk_size) words"
      using assms py_slice_window [of 0 chunk_size words] by simp
    have "nat ?s + nat overlap = nat chunk_size"
      using assms by simp
    then show ?thesis
      using rest first by (simp add: unroll o_def)
  qed
  then have recon: "(case map (\<lambda>c. str_split (chunk_text c)) new of
          [] \<Rightarrow> []
        | w # ws \<Rightarrow> w @ concat (map (drop (nat overlap)) ws)) = words"
    by (simp only: windows)
  have succ: "successively (\<lambda>w w'. suffix (take (nat overlap) w') w)
      (map (\<lambda>c. str_split (chunk_text c)) new)"
    unfolding windows idxs_def using windows_successively [OF assms, of 0 words] by simp
  show ?thesis
    using result recon succ unfolding words_def by (intro exI [of _ new] conjI)
qed

text \<open>
  The theorem at chunk size 3 and overlap 1, for the section \<open>a b c d e\<close> (windows
  \<open>a b c\<close>, \<open>c d e\<close>, \<open>e\<close>).
\<close>

theorem chunk_reconstruction_witness:
  "(0::int) \<le> 1 \<and> (1::int) < 3 \<and>
   (\<exists>chunks.
      chunk_segments 3 1 ''doc.pdf'' ''/data/doc.pdf''
        [\<lparr>seg_title = ''Abschnitt'', seg_text = ''a b c d e'', seg_page_number = 1\<rparr>] ([], 0)
        = Inr ([] @ chunks, 0 + int (length chunks))
      \<and> (case map (\<lambda>c. str_split (chunk_text c)) chunks of
            [] \<Rightarrow> []
          | w # ws \<Rightarrow> w @ concat (map (drop (nat 1)) ws))
         = str_split (seg_text \<lparr>seg_title = ''Abschnitt'', seg_text = ''a b c d e'',
                                seg_page_number = 1\<rparr>)
      \<and> successively (\<lambda>w w'. suffix (take (nat 1) w') w)
            (map (\<lambda>c. str_split (chunk_text c)) chunks))"
proof -
  have h1: "(0::int) \<le> 1" and h2: "(1::int) < 3" by simp_all
  show ?thesis
    using h1 h2 chunk_reconstruction [OF h1 h2] by blast
qed

text \<open>
  The specification asks only for \<open>overlap < chunk_size\<close> and \<open>chunk_size > 0\<close>. With
  chunk size 2 and overlap -1 the stride is 3, and the section \<open>a b c d\<close> gives the chunks
  \<open>a b\<close> and \<open>d\<close>: the word \<open>c\<close> is in no chunk. With chunk size 3 and overlap 2 the same
  section gives \<open>a b c\<close>, \<open>b c d\<close>, \<open>c d\<close>, \<open>d\<close>: the last chunk has one word, so one word
  and not two is repeated between the last two chunks. A section of four words does not
  pass the segmentation, which keeps sections of more than ten words; the page
  \<open>a b c d e f g h i j k l\<close> does, and \<^verbatim>\<open>segment_document\<close> shows both failures on it:
  with chunk size 2 and overlap -1 the words \<open>c\<close>, \<open>f\<close>, \<open>i\<close> and \<open>l\<close> are in no chunk, and
  with chunk size 3 and overlap 2 the last chunk is the one word \<open>l\<close>.
\<close>

theorem chunk_reconstruction_counterexample:
  "(-1::int) < 2 \<and> (0::int) < 2 \<and>
   chunk_segments 2 (-1) ''doc.pdf'' ''/data/doc.pdf''
     [\<lparr>seg_title = ''Abschnitt'', seg_text = ''a b c d'', seg_page_number = 1\<rparr>] ([], 0)
   = Inr ([\<lparr>chunk_text = ''a b'',
             chunk_metadata = \<lparr>md_title = ''Abschnitt'', md_filename = ''doc.pdf'',
               md_page_number = 1, md_chunk_index = 1, md_pdf_path = ''/data/doc.pdf''\<rparr>\<rparr>,
           \<lparr>chunk_text = ''d'',
             chunk_metadata = \<lparr>md_title = ''Abschnitt'', md_filename = ''doc.pdf'',
               md_page_number = 1, md_chunk_index = 2, md_pdf_path = ''/data/doc.pdf''\<rparr>\<rparr>], 2)
   \<and> str_split ''a b'' @ drop (nat (-1)) (str_split ''d'') \<noteq> str_split ''a b c d''
   \<and> (2::int) < 3 \<and>
   chunk_segments 3 2 ''doc.pdf'' ''/data/doc.pdf''
     [\<lparr>seg_title = ''Abschnitt'', seg_text = ''a b c d'', seg_page_number = 1\<rparr>] ([], 0)
   = Inr ([\<lparr>chunk_text = ''a b c'',
             chunk_metadata = \<lparr>md_title = ''Abschnitt'', md_filename = ''doc.pdf'',
               md_page_number = 1, md_chunk_index = 1, md_pdf_path = ''/data/doc.pdf''\<rparr>\<rparr>,
           \<lparr>chunk_text = ''b c d'',
             chunk_metadata = \<lparr>md_title = ''Abschnitt'', md_filename = ''doc.pdf'',
               md_page_number = 1, md_chunk_index = 2, md_pdf_path = ''/data/doc.pdf''\<rparr>\<rparr>,
           \<lparr>chunk_text = ''c d'',
             chunk_metadata = \<lparr>md_title = ''Abschnitt'', md_filename = ''doc.pdf'',
               md_page_number = 1, md_chunk_index = 3, md_pdf_path = ''/data/doc.pdf''\<rparr>\<rparr>,
           \<lparr>chunk_text = ''d'',
             chunk_metadata = \<lparr>md_title = ''Abschnitt'', md_filename = ''doc.pdf'',
               md_page_number = 1, md_chunk_index = 4, md_pdf_path = ''/data/doc.pdf''\<rparr>\<rparr>], 4)
   \<and> length (str_split ''d'') < nat 2
   \<and> map_sum id (map chunk_text)
       (segment_document 2 (-1)
          [\<lparr>page_text = ''a b c d e f g h i j k l'', page_number = 1\<rparr>]
          ''doc.pdf'' ''/data/doc.pdf'')
     = Inr [''a b'', ''d e'', ''g h'', ''j k'']
   \<and> map_sum id (map chunk_text)
       (segment_document 3 2
          [\<lparr>page_text = ''a b c d e f g h i j k l'', page_number = 1\<rparr>]
          ''doc.pdf'' ''/data/doc.pdf'')
     = Inr [''a b c'', ''b c d'', ''c d e'', ''d e f'', ''e f g'', ''f g h'', ''g h i'',
            ''h i j'', ''i j k'', ''j k l'', ''k l'', ''l'']"
  by code_simp

text \<open>
  C2 (as amended): with \<open>overlap \<ge> chunk_size\<close> the chunking stage always returns and
  appends no chunk. When \<open>overlap = chunk_size\<close> and at least one section survives
  segmentation, \<^verbatim>\<open>range\<close> raises \<^verbatim>\<open>ValueError\<close> for its zero step before any chunk is
  built; in every other case (\<open>overlap > chunk_size\<close>, or no section) the stage returns
  its state unchanged, so \<^verbatim>\<open>segment_document\<close> returns the empty list without an error.
  Validation of the configuration accepts every configuration that has the six required
  sections, whatever the chunk settings are.
\<close>

theorem degenerate_overlap:
  assumes "chunk_size \<le> overlap"
  shows "chunk_segments chunk_size overlap filename pdf_path segs st =
      (if overlap = chunk_size \<and> segs \<noteq> []
       then Inl (Exn ValueError ''range() arg 3 must not be zero'') else Inr st)
    \<and> segment_document chunk_size overlap pages_data filename pdf_path =
      (if overlap = chunk_size \<and> collect_segments pages_data [] \<noteq> []
       then Inl (Exn ValueError ''range() arg 3 must not be zero'') else Inr [])
    \<and> (set required_keys \<subseteq> dom cfg \<longrightarrow> validate_config cfg = Inr ())"
proof -
  have "validate_config cfg = Inr ()" if "set required_keys \<subseteq> dom cfg"
  proof -
    have "filter (\<lambda>key. cfg key = None) required_keys = []"
      using that by (auto simp: filter_empty_conv)
    then show ?thesis by (simp add: validate_config_def)
  qed
  then show ?thesis
    using assms
    by (simp add: chunk_segments_degenerate segment_document_def Let_def)
qed

text \<open>
  The theorem at chunk size 3: overlap 3 raises for a page of twelve words, overlap 4
  returns no chunk for it, and a configuration with the six sections is accepted.
\<close>

theorem degenerate_overlap_witness:
  "(3::int) \<le> 3 \<and> (3::int) \<le> 4
   \<and> set required_keys
       \<subseteq> dom [''app'' \<mapsto> (), ''chroma'' \<mapsto> (), ''ollama'' \<mapsto> (), ''documents'' \<mapsto> (),
                ''spacy'' \<mapsto> (), ''logging'' \<mapsto> ()]
   \<and> validate_config
        [''app'' \<mapsto> (), ''chroma'' \<mapsto> (), ''ollama'' \<mapsto> (), ''documents'' \<mapsto> (),
         ''spacy'' \<mapsto> (), ''logging'' \<mapsto> ()] = Inr ()
   \<and> segment_document 3 3
        [\<lparr>page_text = ''a b c d e f g h i j k l'', page_number = 1\<rparr>] ''doc.pdf'' ''/data/doc.pdf''
      = Inl (Exn ValueError ''range() arg 3 must not be zero'')
   \<and> segment_document 3 4
        [\<lparr>page_text = ''a b c d e f g h i j k l'', page_number = 1\<rparr>] ''doc.pdf'' ''/data/doc.pdf''
      = Inr []"
proof -
  have h3: "(3::int) \<le> 3" and h4: "(3::int) \<le> 4" by simp_all
  let ?cfg = "[''app'' \<mapsto> (), ''chroma'' \<mapsto> (), ''ollama'' \<mapsto> (), ''documents'' \<mapsto> (),
               ''spacy'' \<mapsto> (), ''logging'' \<mapsto> ()] :: string \<rightharpoonup> unit"
  have keys: "set required_keys \<subseteq> dom ?cfg"
    by (simp add: required_keys_def)
  have segs: "collect_segments [\<lparr>page_text = ''a b c d e f g h i j k l'', page_number = 1\<rparr>] []
      = [\<lparr>seg_title = ''Gesamtdokument'', seg_text = ''a b c d e f g h i j k l'',
          seg_page_number = 1\<rparr>]"
    by code_simp
  have a: "segment_document 3 3
        [\<lparr>page_text = ''a b c d e f g h i j k l'', page_number = 1\<rparr>] ''doc.pdf'' ''/data/doc.pdf''
      = Inl (Exn ValueError ''range() arg 3 must not be zero'')"
    using degenerate_overlap [OF h3, of "''doc.pdf''" "''/data/doc.pdf''" "[]" "([], 0)"
        "[\<lparr>page_text = ''a b c d e f g h i j k l'', page_number = 1\<rparr>]" ?cfg]
    unfolding segs by simp
  have c: "validate_config ?cfg = Inr ()"
    using keys degenerate_overlap [OF h3, of "''doc.pdf''" "''/data/doc.pdf''" "[]" "([], 0)"
        "[]" ?cfg]
    by blast
  have b: "segment_document 3 4
        [\<lparr>page_text = ''a b c d e f g h i j k l'', page_number = 1\<rparr>] ''doc.pdf'' ''/data/doc.pdf''
      = Inr []"
    using degenerate_overlap [OF h4, of "''doc.pdf''" "''/data/doc.pdf''" "[]" "([], 0)"
        "[\<lparr>page_text = ''a b c d e f g h i j k l'', page_number = 1\<rparr>]" ?cfg]
    unfolding segs by simp
  show ?thesis
    using h3 h4 keys c a b by (intro conjI)
qed

text \<open>
  The statement of the specification fails at chunk size 3 and overlap 4: a page of twelve words is
  segmented without any error into zero chunks.
\<close>

theorem degenerate_overlap_counterexample:
  "(3::int) \<le> 4
   \<and> collect_segments [\<lparr>page_text = ''a b c d e f g h i j k l'', page_number = 1\<rparr>] []
      = [\<lparr>seg_title = ''Gesamtdokument'', seg_text = ''a b c d e f g h i j k l'',
          seg_page_number = 1\<rparr>]
   \<and> segment_document 3 4
        [\<lparr>page_text = ''a b c d e f g h i j k l'', page_number = 1\<rparr>] ''doc.pdf'' ''/data/doc.pdf''
      = Inr []"
  by code_simp

section \<open>Segmentation of a page in closed form\<close>

text \<open>
  The cleaned text of a page has no line feed, so \<^verbatim>\<open>^\<close> holds at its first position
  only and the split finds at most one heading, at the start of the page. The pieces are
  then the empty string, group 1 and the rest of the page; group 1 has no colon and at
  most twenty characters, so it neither matches the pattern nor has more than ten words.
\<close>

lemma set_str_join: "set (str_join ws) \<subseteq> insert (CHR '' '') (\<Union>w \<in> set ws. set w)"
  by (induction ws rule: str_join.induct) auto

lemma clean_text_no_newline: "CHR 0x0A \<notin> set (clean_text s)"
proof
  assume "CHR 0x0A \<in> set (clean_text s)"
  then have "CHR 0x0A \<in> insert (CHR '' '') (\<Union>w \<in> set (str_split s). set w)"
    using set_str_join [of "str_split s"] by (auto simp: clean_text_join_split)
  then obtain w where "w \<in> set (str_split s)" "CHR 0x0A \<in> set w"
    by auto
  then show False
    using str_split_words [of w s] newline_is_space by blast
qed

lemma re_split_section_no_newline:
  "CHR 0x0A \<notin> set s \<Longrightarrow> re_split_section False piece s = [piece @ s]"
proof (induction s arbitrary: piece)
  case Nil
  show ?case by simp
next
  case (Cons c cs)
  then have "(c = CHR 0x0A) = False" by auto
  then show ?case
    using Cons.IH [of "piece @ [c]"] Cons.prems by simp
qed

lemma match_section_rest_subset:
  assumes "match_section s = Some (g, rest)"
  shows "set rest \<subseteq> set s"
proof -
  define t where "t = dropWhile is_space s"
  from assms obtain kw where kw: "find (\<lambda>kw. ci_prefix kw t) section_keywords = Some kw"
    and rest: "rest = tl (dropWhile (\<lambda>c. c \<noteq> CHR '':'') (drop (length kw) t))"
    by (auto simp: match_section_def Let_def t_def split: option.splits if_splits)
  have "set rest \<subseteq> set (dropWhile (\<lambda>c. c \<noteq> CHR '':'') (drop (length kw) t))"
    unfolding rest by (metis list.sel(2) list.set_sel(2) subsetI)
  also have "\<dots> \<subseteq> set (drop (length kw) t)"
    by (auto dest: set_dropWhileD)
  also have "\<dots> \<subseteq> set t" by (rule set_drop_subset)
  also have "\<dots> \<subseteq> set s" unfolding t_def by (auto dest: set_dropWhileD)
  finally show ?thesis .
qed

lemma re_split_cleaned:
  assumes "CHR 0x0A \<notin> set s"
  shows "re_split s = (case match_section s of None \<Rightarrow> [s] | Some (g, rest) \<Rightarrow> [[], g, rest])"
proof (cases s)
  case Nil
  then show ?thesis by (simp add: re_split_def match_section_def section_keywords_def ci_prefix_def)
next
  case (Cons c cs)
  show ?thesis
  proof (cases "match_section s")
    case None
    have "(c = CHR 0x0A) = False" "CHR 0x0A \<notin> set cs"
      using assms Cons by auto
    then show ?thesis
      using None Cons by (simp add: re_split_def re_split_section_no_newline)
  next
    case (Some a)
    obtain g rest where a: "a = (g, rest)" by (cases a)
    have "CHR 0x0A \<notin> set rest"
      using match_section_rest_subset [of s g rest] Some a assms by auto
    then show ?thesis
      using Some a Cons by (simp add: re_split_def re_split_section_no_newline)
  qed
qed

lemma keywords_no_colon: "list_all (\<lambda>kw. CHR '':'' \<notin> set (map lower kw) \<and> length kw \<le> 20) section_keywords"
  by code_simp

lemma lower_colon: "lower (CHR '':'') = CHR '':''"
  by code_simp

lemma match_section_group:
  assumes "match_section s = Some (g, rest)"
  shows "CHR '':'' \<notin> set g \<and> length g \<le> 20"
proof -
  define t where "t = dropWhile is_space s"
  from assms obtain kw where kw: "find (\<lambda>kw. ci_prefix kw t) section_keywords = Some kw"
    and g: "g = take (length kw) t"
    by (auto simp: match_section_def Let_def t_def split: option.splits if_splits)
  from kw have mem: "kw \<in> set section_keywords" and pre: "ci_prefix kw t"
    by (auto simp: find_Some_iff)
  from mem keywords_no_colon have nc: "CHR '':'' \<notin> set (map lower kw)" and len: "length kw \<le> 20"
    by (auto simp: list_all_iff)
  have eq: "map lower g = map lower kw"
    using pre by (simp add: ci_prefix_def g)
  have "CHR '':'' \<notin> set g"
  proof
    assume "CHR '':'' \<in> set g"
    then have "lower (CHR '':'') \<in> set (map lower g)" by simp
    with nc show False by (simp only: eq lower_colon)
  qed
  moreover have "length g \<le> 20"
    using len by (simp add: g)
  ultimately show ?thesis by simp
qed

lemma match_section_no_colon: "CHR '':'' \<notin> set s \<Longrightarrow> match_section s = None"
proof -
  assume nc: "CHR '':'' \<notin> set s"
  have "CHR '':'' \<notin> set (drop n (dropWhile is_space s))" for n
    using nc by (meson in_set_dropD set_dropWhileD)
  then show ?thesis
    by (simp add: match_section_def Let_def split: option.splits)
qed

lemma str_split_count:
  "2 * length (str_split s) \<le> length s + (if s \<noteq> [] \<and> \<not> is_space (hd s) then 1 else 0)"
proof (induction s rule: str_split.induct)
  case (1 s)
  show ?case
  proof (cases "dropWhile is_space s")
    case Nil
    show ?thesis by (simp add: Nil str_split.simps [of s])
  next
    case (Cons c cs)
    define u where "u = takeWhile (\<lambda>x. \<not> is_space x) (c # cs)"
    define r where "r = dropWhile (\<lambda>x. \<not> is_space x) (c # cs)"
    have nsp: "\<not> is_space c"
      using Cons hd_dropWhile [of is_space s] by (metis list.sel(1) list.distinct(1))
    have split_s: "str_split s = u # str_split r"
      by (simp add: Cons str_split.simps [of s] u_def r_def)
    have ur: "length u + length r = length (c # cs)"
      unfolding u_def r_def by (metis length_append takeWhile_dropWhile_id)
    have u1: "1 \<le> length u"
      using nsp by (simp add: u_def)
    have r_sp: "r = [] \<or> is_space (hd r)"
      unfolding r_def using hd_dropWhile [of "\<lambda>x. \<not> is_space x" "c # cs"] by blast
    have IH: "2 * length (str_split r) \<le> length r"
      using "1.IH" [OF Cons] r_sp unfolding r_def by auto
    have t_le: "length (c # cs) + (if s \<noteq> [] \<and> \<not> is_space (hd s) then 0 else 1) \<le> length s"
    proof (cases "s \<noteq> [] \<and> \<not> is_space (hd s)")
      case True
      then have "dropWhile is_space s = s" by (cases s) auto
      with Cons True show ?thesis by simp
    next
      case False
      then obtain d ds where s: "s = d # ds" and "is_space d"
        using Cons by (cases s) auto
      then have "dropWhile is_space s = dropWhile is_space ds" by simp
      then have "length (c # cs) \<le> length ds"
        using length_dropWhile_le [of is_space ds] by (simp add: Cons)
      with False s show ?thesis by auto
    qed
    show ?thesis
      using IH ur u1 t_le by (auto simp: split_s split: if_splits)
  qed
qed

lemma match_section_Nil: "match_section [] = None"
  by (simp add: match_section_no_colon)

lemma split_parts_heading:
  assumes "match_section s = Some (g, rest)"
  shows "snd (split_parts page_num [[], g, rest] ([], all_segments)) =
     all_segments @
       (if match_section rest = None \<and> 10 < length (str_split (clean_text rest))
        then [\<lparr>seg_title = ''Abschnitt'', seg_text = clean_text rest,
               seg_page_number = page_num\<rparr>]
        else [])"
proof -
  have g: "match_section g = None"
    using match_section_group [OF assms] by (simp add: match_section_no_colon)
  have "2 * length (str_split g) \<le> length g + 1"
    using str_split_count [of g] by (simp split: if_splits)
  then have words: "\<not> 10 < length (str_split (clean_text g))"
    using match_section_group [OF assms] by (simp add: str_split_clean_text)
  have empty: "\<not> 10 < length (str_split (clean_text []))"
    by (simp add: str_split_clean_text str_split.simps [of "[]"])
  show ?thesis
    using g words empty by (simp add: match_section_Nil Let_def)
qed

text \<open>
  One page contributes at most one segment: the whole page under the title
  \<open>Gesamtdokument\<close> when no heading starts it, and otherwise the text after the first
  colon under the title \<open>Abschnitt\<close>, unless that text starts with a heading itself.
\<close>

lemma collect_segments_page:
  "collect_segments (page_data # pages_data) all_segments =
     collect_segments pages_data
       (all_segments @
        (let cleaned = clean_text (page_text page_data) in
         case match_section cleaned of
           None \<Rightarrow>
             (if 10 < length (str_split cleaned)
              then [\<lparr>seg_title = ''Gesamtdokument'', seg_text = cleaned,
                     seg_page_number = page_number page_data\<rparr>]
              else [])
         | Some (g, rest) \<Rightarrow>
             (if match_section rest = None \<and> 10 < length (str_split (clean_text rest))
              then [\<lparr>seg_title = ''Abschnitt'', seg_text = clean_text rest,
                     seg_page_number = page_number page_data\<rparr>]
              else [])))"
proof (cases "match_section (clean_text (page_text page_data))")
  case None
  then have "re_split (clean_text (page_text page_data)) = [clean_text (page_text page_data)]"
    using re_split_cleaned [OF clean_text_no_newline, of "page_text page_data"] by simp
  then show ?thesis
    using None by (simp add: Let_def)
next
  case (Some a)
  obtain g rest where a: "a = (g, rest)" by (cases a)
  have "re_split (clean_text (page_text page_data)) = [[], g, rest]"
    using re_split_cleaned [OF clean_text_no_newline, of "page_text page_data"] Some a by simp
  then show ?thesis
    using Some a split_parts_heading [of "clean_text (page_text page_data)" g rest]
    by (simp add: Let_def)
qed

lemma segment_titles:
  "s \<in> set (collect_segments pages_data all_segments) \<Longrightarrow>
     s \<in> set all_segments \<or> seg_title s = ''Gesamtdokument'' \<or> seg_title s = ''Abschnitt''"
proof (induction pages_data arbitrary: all_segments)
  case Nil
  then show ?case by simp
next
  case (Cons page_data pages_data)
  from Cons.prems Cons.IH show ?case
    unfolding collect_segments_page
    by (fastforce simp: Let_def split: option.splits if_splits)
qed

section \<open>Titles of the segments of a page with a heading\<close>

text \<open>
  C4: on a page where a heading matches, an emitted body segment should carry the
  nearest preceding heading as its title. The code does not do that. For the page
  \<open>Ziele: a b c d e f g h i j k\<close> the split yields the pieces \<open>''''\<close>, \<open>Ziele\<close> and the body;
  the piece \<open>Ziele\<close> is group 1 only, without the colon the pattern needs, so
  \<^verbatim>\<open>re.match\<close> fails on it, \<open>current_title\<close> stays empty, and the body segment is
  emitted under the sentinel title \<open>Abschnitt\<close>. By \<open>segment_titles\<close> this is so for every
  document: no segment ever carries a heading as its title.
\<close>

theorem heading_title_lost:
  "re_split (clean_text ''Ziele: a b c d e f g h i j k'')
     = [[], ''Ziele'', '' a b c d e f g h i j k'']
   \<and> match_section ''Ziele'' = None
   \<and> collect_segments [\<lparr>page_text = ''Ziele: a b c d e f g h i j k'', page_number = 1\<rparr>] []
     = [\<lparr>seg_title = ''Abschnitt'', seg_text = ''a b c d e f g h i j k'', seg_page_number = 1\<rparr>]"
  by code_simp

section \<open>Pages that start with a heading, and scenario A\<close>




lemma page_at_most_one_segment: "length (collect_segments [page_data] []) \<le> 1"
  unfolding collect_segments_page [of page_data]
  by (simp add: Let_def split: option.splits)
















section \<open>rag_engine.py\<close>

text \<open>
  The embedding model, the vector store and the generation backend are outside the
  repository; the engine holds them as functions that return a value or raise. A
  metadata value of a stored chunk is a string or an integer (what the indexer writes);
  Python compares such values structurally. A metadata dictionary comes back from the
  store, so its keys may be missing and it is a map.
\<close>

datatype mval = MStr string | MInt int

type_synonym metadata = "string \<rightharpoonup> mval"

record doc =
  vector_norm :: real
  vector :: "real list"

text \<open>
  The reply of \<^verbatim>\<open>collection.query\<close> is a dictionary whose entries are lists with one
  element per query embedding. An entry can be missing (\<^verbatim>\<open>KeyError\<close> on access), be
  \<^verbatim>\<open>None\<close>, or be present.
\<close>

datatype 'a entry = Absent | PyNone | Present 'a

record query_result =
  qr_documents :: "string list list entry"
  qr_metadatas :: "metadata list list entry"

text \<open>
  The \<^verbatim>\<open>ollama\<close> section of the configuration: \<^verbatim>\<open>base_url\<close> and \<^verbatim>\<open>model\<close> are read
  with a subscript, \<^verbatim>\<open>temperature\<close> and \<^verbatim>\<open>max_tokens\<close> with \<^verbatim>\<open>get\<close> and a default.
  \<open>None\<close> is a missing key.
\<close>

record ollama_cfg =
  base_url :: "string option"
  model :: "string option"
  temperature :: "real option"
  max_tokens :: "int option"

record payload =
  pl_model :: string
  pl_prompt :: string
  pl_stream :: bool
  pl_temperature :: real
  pl_num_predict :: int

text \<open>
  The reply of the generation backend. Its body decodes to a JSON object or to another
  JSON value, which has no \<^verbatim>\<open>get\<close> (the argument is the name of its Python type). The
  code reads the key \<^verbatim>\<open>response\<close> only; section 6 of the specification gives its value
  as a string, but \<^verbatim>\<open>result.get\<close> returns whatever the object holds, so a value is a
  string, \<^verbatim>\<open>null\<close> (Python's \<^verbatim>\<open>None\<close>) or some other JSON value.
  \<^verbatim>\<open>raise_for_status\<close> is the error it raises, if any.
\<close>

datatype json_value = JString string | JNull | JOther

datatype json_body = JsonObject "string \<rightharpoonup> json_value" | JsonOther string

record http_response =
  raise_for_status :: "exn option"
  json :: "exn + json_body"

record engine =
  nlp :: "string \<Rightarrow> exn + doc"
  collection_query :: "real list \<Rightarrow> int \<Rightarrow> exn + query_result"
  requests_post :: "string \<Rightarrow> payload \<Rightarrow> exn + http_response"
  ollama_config :: ollama_cfg

definition connection_failed :: string where
  "connection_failed =
     ''Fehler: Verbindung zu Ollama fehlgeschlagen. Stellen Sie sicher, dass Ollama l''
       @ [CHR 0xE4] @ ''uft.''"

definition request_timed_out :: string where
  "request_timed_out =
     ''Fehler: Zeit'' @ [CHR 0xFC] @ ''berschreitung bei der Anfrage an Ollama.''"

definition no_documents_found :: string where
  "no_documents_found =
     ''Entschuldigung, ich konnte keine relevanten Dokumente zu Ihrer Frage finden.''"

text \<open>
  \<^verbatim>\<open>isinstance\<close> for the two classes the \<^verbatim>\<open>except\<close> clauses of \<^verbatim>\<open>_query_ollama\<close> name.
\<close>

definition is_connection_error :: "exn_class \<Rightarrow> bool" where
  "is_connection_error cls \<longleftrightarrow> cls = ConnectionError \<or> cls = ConnectTimeout"

definition is_timeout :: "exn_class \<Rightarrow> bool" where
  "is_timeout cls \<longleftrightarrow> cls = Timeout \<or> cls = ConnectTimeout \<or> cls = ReadTimeout"

text \<open>
  The URL and the payload of the request (lines 55 to 64), for a configuration that has
  the base URL \<open>b\<close> and the model \<open>m\<close>.
\<close>

definition generate_url :: "string \<Rightarrow> string" where
  "generate_url b = b @ ''/api/generate''"

definition generate_payload :: "ollama_cfg \<Rightarrow> string \<Rightarrow> string \<Rightarrow> payload" where
  "generate_payload cfg m prompt =
     \<lparr>pl_model = m, pl_prompt = prompt, pl_stream = False,
      pl_temperature = (case temperature cfg of None \<Rightarrow> 1 / 10 | Some t \<Rightarrow> t),
      pl_num_predict = (case max_tokens cfg of None \<Rightarrow> 2048 | Some n \<Rightarrow> n)\<rparr>"

text \<open>
  The body of the \<^verbatim>\<open>try\<close> block of \<^verbatim>\<open>_query_ollama\<close>: the request, its status check,
  the decoding of its body and \<^verbatim>\<open>result.get('response', 'Keine Antwort erhalten.')\<close>.
\<close>

definition post_generate :: "engine \<Rightarrow> string \<Rightarrow> payload \<Rightarrow> exn + json_value" where
  "post_generate eng url pl =
     (case requests_post eng url pl of
        Inl e \<Rightarrow> Inl e
      | Inr response \<Rightarrow>
          (case raise_for_status response of
             Some e \<Rightarrow> Inl e
           | None \<Rightarrow>
               (case json response of
                  Inl e \<Rightarrow> Inl e
                | Inr (JsonObject result) \<Rightarrow>
                    Inr (case result ''response'' of
                           None \<Rightarrow> JString ''Keine Antwort erhalten.''
                         | Some r \<Rightarrow> r)
                | Inr (JsonOther ty) \<Rightarrow>
                    Inl (Exn AttributeError
                          ([CHR 0x27] @ ty @ [CHR 0x27] @ '' object has no attribute ''
                             @ [CHR 0x27] @ ''get'' @ [CHR 0x27])))))"

text \<open>
  \<^verbatim>\<open>_query_ollama\<close>: the URL and the payload are built before the \<^verbatim>\<open>try\<close>, so a missing
  \<^verbatim>\<open>base_url\<close> or \<^verbatim>\<open>model\<close> raises \<^verbatim>\<open>KeyError\<close> to the caller. The three \<^verbatim>\<open>except\<close>
  clauses follow in the order of the source: an exception that is a
  \<^verbatim>\<open>ConnectionError\<close> is answered by the first, also when it is a \<^verbatim>\<open>Timeout\<close> too.
\<close>

definition query_ollama :: "engine \<Rightarrow> string \<Rightarrow> exn + json_value" where
  "query_ollama eng prompt =
     (case base_url (ollama_config eng) of
        None \<Rightarrow> Inl (Exn KeyError ([CHR 0x27] @ ''base_url'' @ [CHR 0x27]))
      | Some b \<Rightarrow>
          (case model (ollama_config eng) of
             None \<Rightarrow> Inl (Exn KeyError ([CHR 0x27] @ ''model'' @ [CHR 0x27]))
           | Some m \<Rightarrow>
               (let url = generate_url b;
                    pl = generate_payload (ollama_config eng) m prompt
                in case post_generate eng url pl of
                     Inr answer \<Rightarrow> Inr answer
                   | Inl (Exn cls msg) \<Rightarrow>
                       if is_connection_error cls then Inr (JString connection_failed)
                       else if is_timeout cls then Inr (JString request_timed_out)
                       else Inr (JString (''Fehler bei der Anfrage: '' @ msg)))))"

text \<open>
  \<^verbatim>\<open>retrieve_documents\<close>: first the body of its \<^verbatim>\<open>try\<close> block, where every call and
  every subscript can raise, then the function with its \<^verbatim>\<open>except Exception\<close> clause.
\<close>

definition retrieve_try :: "engine \<Rightarrow> string \<Rightarrow> int \<Rightarrow> exn + string list \<times> metadata list" where
  "retrieve_try eng query_text n_results =
     (case nlp eng query_text of
        Inl e \<Rightarrow> Inl e
      | Inr query_doc \<Rightarrow>
          if vector_norm query_doc = 0 then Inr ([], [])
          else
            (case collection_query eng (vector query_doc) n_results of
               Inl e \<Rightarrow> Inl e
             | Inr results \<Rightarrow>
                 (case qr_documents results of
                    Absent \<Rightarrow> Inl (Exn KeyError ([CHR 0x27] @ ''documents'' @ [CHR 0x27]))
                  | PyNone \<Rightarrow> Inr ([], [])
                  | Present [] \<Rightarrow> Inr ([], [])
                  | Present ([] # _) \<Rightarrow> Inr ([], [])
                  | Present (documents # _) \<Rightarrow>
                      (case qr_metadatas results of
                         Absent \<Rightarrow> Inl (Exn KeyError ([CHR 0x27] @ ''metadatas'' @ [CHR 0x27]))
                       | PyNone \<Rightarrow>
                           Inl (Exn TypeError
                                 ([CHR 0x27] @ ''NoneType'' @ [CHR 0x27]
                                    @ '' object is not subscriptable''))
                       | Present [] \<Rightarrow> Inl (Exn IndexError ''list index out of range'')
                       | Present (metadatas # _) \<Rightarrow> Inr (documents, metadatas)))))"

definition retrieve_documents :: "engine \<Rightarrow> string \<Rightarrow> int \<Rightarrow> string list \<times> metadata list" where
  "retrieve_documents eng query_text n_results =
     (case retrieve_try eng query_text n_results of
        Inr r \<Rightarrow> r
      | Inl e \<Rightarrow> ([], []))"


text \<open>\<^verbatim>\<open>str\<close> of an integer, as an f-string formats it.\<close>

function str_nat :: "nat \<Rightarrow> string" where
  "str_nat n = (if n < 10 then [char_of (48 + n)] else str_nat (n div 10) @ [char_of (48 + n mod 10)])"
  by pat_completeness auto
termination
  by (relation "measure id") simp_all

declare str_nat.simps [simp del]

definition str_int :: "int \<Rightarrow> string" where
  "str_int i = (if i < 0 then CHR ''-'' # str_nat (nat (- i)) else str_nat (nat i))"

fun format_mval :: "mval \<Rightarrow> string" where
  "format_mval (MStr s) = s"
| "format_mval (MInt i) = str_int i"

definition dict_get :: "('k \<rightharpoonup> 'v) \<Rightarrow> 'k \<Rightarrow> 'v \<Rightarrow> 'v" where
  "dict_get d key dflt = (case d key of None \<Rightarrow> dflt | Some v \<Rightarrow> v)"

fun join_newline :: "string list \<Rightarrow> string" where
  "join_newline [] = []"
| "join_newline [p] = p"
| "join_newline (p # q # ps) = p @ CHR 0x0A # join_newline (q # ps)"

fun context_parts :: "nat \<Rightarrow> (string \<times> metadata) list \<Rightarrow> string list" where
  "context_parts i [] = []"
| "context_parts i ((doc, meta) # rest) =
     (let filename = dict_get meta ''filename'' (MStr ''Unbekanntes Dokument'');
          title = dict_get meta ''title'' (MStr ''Unbekannter Abschnitt'')
      in (''[Quelle '' @ str_nat i @ '': '' @ format_mval filename @ '' - ''
            @ format_mval title @ '']\<newline>'' @ doc @ ''\<newline>'')
         # context_parts (Suc i) rest)"

definition generate_prompt :: "string \<Rightarrow> string list \<Rightarrow> metadata list \<Rightarrow> string" where
  "generate_prompt query_text context_docs metadatas =
     (let context = join_newline (context_parts 1 (zip context_docs metadatas))
      in ''Du bist ein hilfreicher Assistent f'' @ [CHR 0xFC] @ ''r Studierende der Universit''
         @ [CHR 0xE4] @ ''t Leipzig. \<newline>Beantworte die folgende Frage basierend ausschlie''
         @ [CHR 0xDF] @ ''lich auf dem gegebenen Kontext aus den Universit'' @ [CHR 0xE4]
         @ ''tsdokumenten.\<newline>\<newline>WICHTIGE REGELN:\<newline>1. Beantworte nur Fragen, die sich aus dem Kontext beantworten lassen\<newline>2. Wenn der Kontext keine ausreichenden Informationen enth''
         @ [CHR 0xE4] @ ''lt, sage ehrlich '' @ [CHR 0x22]
         @ ''Ich kann diese Frage nicht basierend auf den verf'' @ [CHR 0xFC]
         @ ''gbaren Dokumenten beantworten'' @ [CHR 0x22]
         @ ''\<newline>3. Gib am Ende deiner Antwort die verwendeten Quellen an\<newline>4. Antworte auf Deutsch und sei pr''
         @ [CHR 0xE4] @ ''zise\<newline>\<newline>KONTEXT:\<newline>''
         @ context @ ''\<newline>\<newline>FRAGE: '' @ query_text @ ''\<newline>\<newline>ANTWORT:'')"

text \<open>
  A source entry of a query result has the same five keys every time, so it is a record.
  The loop below is the deduplication of \<^verbatim>\<open>process_query\<close>, started with the empty list.
\<close>

record source =
  src_filename :: mval
  src_title :: mval
  src_page_number :: mval
  src_chunk_index :: mval
  src_pdf_path :: mval

definition source_info :: "metadata \<Rightarrow> source" where
  "source_info meta =
     \<lparr>src_filename = dict_get meta ''filename'' (MStr ''Unbekannt''),
      src_title = dict_get meta ''title'' (MStr ''Unbekannt''),
      src_page_number = dict_get meta ''page_number'' (MStr ''N/A''),
      src_chunk_index = dict_get meta ''chunk_index'' (MStr ''N/A''),
      src_pdf_path = dict_get meta ''pdf_path'' (MStr [])\<rparr>"

fun collect_sources :: "metadata list \<Rightarrow> source list \<Rightarrow> source list" where
  "collect_sources [] sources = sources"
| "collect_sources (meta # metadatas) sources =
     (if source_info meta \<notin> set sources
      then collect_sources metadatas (sources @ [source_info meta])
      else collect_sources metadatas sources)"

text \<open>
  The result of \<^verbatim>\<open>process_query\<close> is a dictionary with values of several types; it is
  kept as the list of its items in insertion order, so that its key set can be stated.
\<close>

datatype rval = RStr string | RNone | ROther | RSources "source list" | RBool bool | RInt int

text \<open>The answer of the generation call as a value of the result.\<close>

fun answer_value :: "json_value \<Rightarrow> rval" where
  "answer_value (JString s) = RStr s"
| "answer_value JNull = RNone"
| "answer_value JOther = ROther"

definition process_query :: "engine \<Rightarrow> string \<Rightarrow> int \<Rightarrow> exn + (string \<times> rval) list" where
  "process_query eng query_text n_results =
     (case retrieve_documents eng query_text n_results of
        (context_docs, metadatas) \<Rightarrow>
          if context_docs = []
          then Inr [(''answer'', RStr no_documents_found),
                    (''sources'', RSources []),
                    (''query'', RStr query_text),
                    (''success'', RBool False)]
          else
            (case query_ollama eng (generate_prompt query_text context_docs metadatas) of
               Inl e \<Rightarrow> Inl e
             | Inr answer \<Rightarrow>
                 Inr [(''answer'', answer_value answer),
                      (''sources'', RSources (collect_sources metadatas [])),
                      (''query'', RStr query_text),
                      (''success'', RBool True),
                      (''context_count'', RInt (int (length context_docs)))]))"

text \<open>
  An engine for the examples below: every query has a usable embedding, the store returns
  three passages of which the first and the third come from the same chunk, and the
  generation backend refuses the connection.
\<close>

definition example_meta :: "int \<Rightarrow> metadata" where
  "example_meta i =
     [''filename'' \<mapsto> MStr ''po.pdf'', ''title'' \<mapsto> MStr ''Abschnitt'',
      ''page_number'' \<mapsto> MInt 1, ''chunk_index'' \<mapsto> MInt i,
      ''pdf_path'' \<mapsto> MStr ''/data/po.pdf'']"

definition example_source :: "int \<Rightarrow> source" where
  "example_source i =
     \<lparr>src_filename = MStr ''po.pdf'', src_title = MStr ''Abschnitt'',
      src_page_number = MInt 1, src_chunk_index = MInt i,
      src_pdf_path = MStr ''/data/po.pdf''\<rparr>"

definition example_results :: query_result where
  "example_results =
     \<lparr>qr_documents = Present [[''Die Regelstudienzeit'', ''betraegt'', ''vier Semester'']],
      qr_metadatas = Present [[example_meta 1, example_meta 2, example_meta 1]]\<rparr>"

definition example_engine :: engine where
  "example_engine =
     \<lparr>nlp = (\<lambda>text. Inr \<lparr>vector_norm = 1, vector = [1]\<rparr>),
      collection_query = (\<lambda>embedding n. Inr example_results),
      requests_post = (\<lambda>url pl. Inl (Exn ConnectionError ''Connection refused'')),
      ollama_config =
        \<lparr>base_url = Some ''http://localhost:11434'', model = Some ''llama3.1:8b'',
         temperature = None, max_tokens = None\<rparr>\<rparr>"

text \<open>The same engine with an embedding model that finds no vector for any query.\<close>

definition degenerate_engine :: engine where
  "degenerate_engine = example_engine\<lparr>nlp := \<lambda>text. Inr \<lparr>vector_norm = 0, vector = [0]\<rparr>\<rparr>"

text \<open>
  Engines with other backends: one whose connection attempt times out, one whose reply
  does not arrive in time, one that answers with HTTP status 500, one that answers with a
  \<^verbatim>\<open>null\<close> response, and the example engine with a configuration that has no model.
\<close>

definition connect_timeout_engine :: engine where
  "connect_timeout_engine =
     example_engine\<lparr>requests_post :=
       \<lambda>url pl. Inl (Exn ConnectTimeout ''Connection to localhost timed out'')\<rparr>"

definition read_timeout_engine :: engine where
  "read_timeout_engine =
     example_engine\<lparr>requests_post := \<lambda>url pl. Inl (Exn ReadTimeout ''Read timed out'')\<rparr>"

definition server_error_engine :: engine where
  "server_error_engine =
     example_engine\<lparr>requests_post := \<lambda>url pl.
       Inr \<lparr>raise_for_status = Some (Exn OtherException ''500 Server Error''),
            json = Inr (JsonObject Map.empty)\<rparr>\<rparr>"

definition null_reply_engine :: engine where
  "null_reply_engine =
     example_engine\<lparr>requests_post := \<lambda>url pl.
       Inr \<lparr>raise_for_status = None,
            json = Inr (JsonObject [''response'' \<mapsto> JNull])\<rparr>\<rparr>"

definition no_model_engine :: engine where
  "no_model_engine =
     example_engine\<lparr>ollama_config :=
       \<lparr>base_url = Some ''http://localhost:11434'', model = None,
        temperature = None, max_tokens = None\<rparr>\<rparr>"

subsection \<open>Lemmas about the engine\<close>

lemma collect_sources_append:
  "collect_sources (xs @ ys) acc = collect_sources ys (collect_sources xs acc)"
  by (induction xs arbitrary: acc) simp_all

lemma collect_sources_prefix: "prefix acc (collect_sources xs acc)"
proof (induction xs arbitrary: acc)
  case Nil
  show ?case by simp
next
  case (Cons x xs)
  have "prefix acc (collect_sources xs (acc @ [source_info x]))"
    using Cons.IH [of "acc @ [source_info x]"] by (rule append_prefixD)
  then show ?case
    using Cons.IH [of acc] by simp
qed

lemma set_collect_sources:
  "set (collect_sources xs acc) = set acc \<union> set (map source_info xs)"
  by (induction xs arbitrary: acc) auto

lemma distinct_collect_sources:
  "distinct acc \<Longrightarrow> distinct (collect_sources xs acc)"
  by (induction xs arbitrary: acc) simp_all

lemma collect_sources_snoc:
  "collect_sources (xs @ [x]) [] =
     (if source_info x \<in> set (map source_info xs) then collect_sources xs []
      else collect_sources xs [] @ [source_info x])"
  by (simp add: collect_sources_append set_collect_sources)

lemma collect_sources_first_seen:
  "collect_sources xs [] = rev (remdups (rev (map source_info xs)))"
  by (induction xs rule: rev_induct) (simp_all add: collect_sources_snoc)

lemma process_query_empty:
  "retrieve_documents eng q n = ([], ms) \<Longrightarrow> process_query eng q n = Inr [(''answer'', RStr no_documents_found),
                    (''sources'', RSources []),
                    (''query'', RStr q),
                    (''success'', RBool False)]"
  by (simp add: process_query_def)

lemma query_ollama_configured:
  assumes "base_url (ollama_config eng) = Some b" "model (ollama_config eng) = Some m"
  shows "query_ollama eng prompt =
     (case post_generate eng (generate_url b) (generate_payload (ollama_config eng) m prompt) of
        Inr answer \<Rightarrow> Inr answer
      | Inl (Exn cls msg) \<Rightarrow>
          Inr (JString (if is_connection_error cls then connection_failed
                        else if is_timeout cls then request_timed_out
                        else ''Fehler bei der Anfrage: '' @ msg)))"
  using assms by (simp add: query_ollama_def Let_def split: sum.splits exn.splits)

lemma post_generate_not_string:
  assumes "post_generate eng url pl = Inr answer" "\<forall>s. answer \<noteq> JString s"
  shows "\<exists>response result. requests_post eng url pl = Inr response
      \<and> raise_for_status response = None \<and> json response = Inr (JsonObject result)
      \<and> result ''response'' = Some answer"
  using assms
  by (auto simp: post_generate_def split: sum.splits option.splits json_body.splits)

lemma post_generate_raises:
  "requests_post eng url pl = Inl e \<Longrightarrow> post_generate eng url pl = Inl e"
  by (simp add: post_generate_def)

lemma messages_distinct: "connection_failed \<noteq> request_timed_out"
  by (simp add: connection_failed_def request_timed_out_def)

section \<open>Properties of the engine\<close>

text \<open>
  C5: when the embedding of the query is degenerate (its norm is zero),
  \<^verbatim>\<open>retrieve_documents\<close> returns two empty lists and \<^verbatim>\<open>process_query\<close> returns the
  result with \<open>success\<close> false, no sources and the fixed message that no relevant documents
  were found. A store that has no document for the query (its reply holds \<^verbatim>\<open>None\<close>, no
  list, or an empty list for the query) gives the same two empty lists, and so the same
  result.
\<close>

theorem degenerate_query_short_circuit:
  assumes "nlp eng query_text = Inr d"
    and "vector_norm d = 0
       \<or> (\<exists>results. collection_query eng (vector d) n_results = Inr results
             \<and> (qr_documents results = PyNone \<or> qr_documents results = Present []
                \<or> (\<exists>rest. qr_documents results = Present ([] # rest))))"
  shows "retrieve_documents eng query_text n_results = ([], [])
    \<and> process_query eng query_text n_results
        = Inr [(''answer'', RStr no_documents_found), (''sources'', RSources []),
               (''query'', RStr query_text), (''success'', RBool False)]"
proof -
  have "retrieve_documents eng query_text n_results = ([], [])"
    using assms by (auto simp: retrieve_documents_def retrieve_try_def)
  then show ?thesis
    by (simp add: process_query_empty)
qed

text \<open>
  The theorem for a query whose embedding has norm zero, and for a store that answers
  with an empty list of documents.
\<close>

theorem degenerate_query_short_circuit_witness:
  "nlp degenerate_engine ''???''
     = Inr \<lparr>vector_norm = 0, vector = [0]\<rparr>
   \<and> vector_norm \<lparr>vector_norm = 0, vector = [0]\<rparr> = 0
   \<and> retrieve_documents degenerate_engine
        ''???'' 5 = ([], [])
   \<and> process_query degenerate_engine
        ''???'' 5
       = Inr [(''answer'', RStr no_documents_found), (''sources'', RSources []),
              (''query'', RStr ''???''), (''success'', RBool False)]
   \<and> collection_query
        (example_engine\<lparr>collection_query := \<lambda>embedding n.
            Inr \<lparr>qr_documents = Present [[]], qr_metadatas = Present [[]]\<rparr>\<rparr>)
        (vector \<lparr>vector_norm = 1, vector = [1]\<rparr>) 5
       = Inr \<lparr>qr_documents = Present [[]], qr_metadatas = Present [[]]\<rparr>
   \<and> retrieve_documents
        (example_engine\<lparr>collection_query := \<lambda>embedding n.
            Inr \<lparr>qr_documents = Present [[]], qr_metadatas = Present [[]]\<rparr>\<rparr>)
        ''Wie lange dauert das Studium?'' 5 = ([], [])
   \<and> process_query
        (example_engine\<lparr>collection_query := \<lambda>embedding n.
            Inr \<lparr>qr_documents = Present [[]], qr_metadatas = Present [[]]\<rparr>\<rparr>)
        ''Wie lange dauert das Studium?'' 5
       = Inr [(''answer'', RStr no_documents_found), (''sources'', RSources []),
              (''query'', RStr ''Wie lange dauert das Studium?''), (''success'', RBool False)]"
proof -
  let ?E1 = "degenerate_engine"
  let ?E2 = "example_engine\<lparr>collection_query := \<lambda>embedding n.
            Inr \<lparr>qr_documents = Present [[]], qr_metadatas = Present [[]]\<rparr>\<rparr>"
  have a1: "nlp ?E1 ''???'' = Inr \<lparr>vector_norm = 0, vector = [0]\<rparr>"
    by (simp add: degenerate_engine_def)
  have a2: "vector_norm \<lparr>vector_norm = 0, vector = [0]\<rparr> = 0
       \<or> (\<exists>results. collection_query ?E1 (vector \<lparr>vector_norm = 0, vector = [0]\<rparr>) 5 = Inr results
             \<and> (qr_documents results = PyNone \<or> qr_documents results = Present []
                \<or> (\<exists>rest. qr_documents results = Present ([] # rest))))"
    by simp
  have b1: "nlp ?E2 ''Wie lange dauert das Studium?'' = Inr \<lparr>vector_norm = 1, vector = [1]\<rparr>"
    by (simp add: example_engine_def)
  have b0: "collection_query ?E2 (vector \<lparr>vector_norm = 1, vector = [1]\<rparr>) 5
      = Inr \<lparr>qr_documents = Present [[]], qr_metadatas = Present [[]]\<rparr>"
    by simp
  have b2: "vector_norm \<lparr>vector_norm = 1, vector = [1]\<rparr> = 0
       \<or> (\<exists>results. collection_query ?E2 (vector \<lparr>vector_norm = 1, vector = [1]\<rparr>) 5 = Inr results
             \<and> (qr_documents results = PyNone \<or> qr_documents results = Present []
                \<or> (\<exists>rest. qr_documents results = Present ([] # rest))))"
    by simp
  show ?thesis
    using degenerate_query_short_circuit [OF a1 a2] degenerate_query_short_circuit [OF b1 b2]
      a1 b0
    by simp
qed

text \<open>
  C6 (as amended): when the \<^verbatim>\<open>ollama\<close> configuration has \<^verbatim>\<open>base_url\<close> and \<^verbatim>\<open>model\<close>, the
  generation call raises nothing, and what it returns is a string unless the reply of the
  backend is a JSON object whose \<open>response\<close> is not a string (that value is then returned
  as it is). When the request, its status check or its decoding raises, the call returns
  the fixed connection message for a connection error, which a refused connection is and
  a connect timeout too; the different fixed timeout message for any other timeout; and
  \<open>Fehler bei der Anfrage:\<close> followed by the message of the exception for every other
  failure. The hypotheses speak of the one request the call makes. So when retrieval found
  passages and the request meets a connection error, \<^verbatim>\<open>process_query\<close> returns a result
  with \<open>success\<close> true whose answer is the connection message.
\<close>

theorem generation_returns_string:
  assumes "base_url (ollama_config eng) = Some b" "model (ollama_config eng) = Some m"
  shows "(\<exists>answer. query_ollama eng prompt = Inr answer)
    \<and> (\<forall>cls msg.
          post_generate eng (generate_url b) (generate_payload (ollama_config eng) m prompt)
            = Inl (Exn cls msg)
          \<longrightarrow> query_ollama eng prompt
              = Inr (JString (if is_connection_error cls then connection_failed
                              else if is_timeout cls then request_timed_out
                              else ''Fehler bei der Anfrage: '' @ msg)))
    \<and> (\<forall>e. requests_post eng (generate_url b) (generate_payload (ollama_config eng) m prompt)
            = Inl e
          \<longrightarrow> post_generate eng (generate_url b) (generate_payload (ollama_config eng) m prompt)
              = Inl e)
    \<and> (\<forall>answer. query_ollama eng prompt = Inr answer \<and> (\<forall>s. answer \<noteq> JString s)
          \<longrightarrow> (\<exists>response result.
                requests_post eng (generate_url b) (generate_payload (ollama_config eng) m prompt)
                  = Inr response
                \<and> raise_for_status response = None
                \<and> json response = Inr (JsonObject result)
                \<and> result ''response'' = Some answer))
    \<and> connection_failed \<noteq> request_timed_out
    \<and> (\<forall>docs metas cls msg.
          retrieve_documents eng query_text n_results = (docs, metas) \<and> docs \<noteq> []
            \<and> requests_post eng (generate_url b)
                 (generate_payload (ollama_config eng) m (generate_prompt query_text docs metas))
               = Inl (Exn cls msg)
            \<and> is_connection_error cls
          \<longrightarrow> process_query eng query_text n_results
              = Inr [(''answer'', RStr connection_failed),
                     (''sources'', RSources (collect_sources metas [])),
                     (''query'', RStr query_text),
                     (''success'', RBool True),
                     (''context_count'', RInt (int (length docs)))])"
proof -
  let ?pg = "\<lambda>p. post_generate eng (generate_url b) (generate_payload (ollama_config eng) m p)"
  note q = query_ollama_configured [OF assms]
  have returns: "\<exists>answer. query_ollama eng prompt = Inr answer"
    unfolding q by (simp split: sum.splits exn.splits)
  have failure: "query_ollama eng prompt
      = Inr (JString (if is_connection_error cls then connection_failed
                      else if is_timeout cls then request_timed_out
                      else ''Fehler bei der Anfrage: '' @ msg))"
    if "?pg prompt = Inl (Exn cls msg)" for cls msg
    unfolding q using that by simp
  have not_string: "\<exists>response result.
        requests_post eng (generate_url b) (generate_payload (ollama_config eng) m prompt)
          = Inr response
        \<and> raise_for_status response = None \<and> json response = Inr (JsonObject result)
        \<and> result ''response'' = Some answer"
    if ans: "query_ollama eng prompt = Inr answer" and ns: "\<forall>s. answer \<noteq> JString s" for answer
  proof -
    have "?pg prompt = Inr answer"
      using ans ns unfolding q by (auto split: sum.splits exn.splits)
    then show ?thesis
      using ns by (rule post_generate_not_string)
  qed
  have scenario: "process_query eng query_text n_results
        = Inr [(''answer'', RStr connection_failed),
               (''sources'', RSources (collect_sources metas [])),
               (''query'', RStr query_text),
               (''success'', RBool True),
               (''context_count'', RInt (int (length docs)))]"
    if retr: "retrieve_documents eng query_text n_results = (docs, metas)" and ne: "docs \<noteq> []"
      and post: "requests_post eng (generate_url b)
          (generate_payload (ollama_config eng) m (generate_prompt query_text docs metas))
          = Inl (Exn cls msg)"
      and cls: "is_connection_error cls" for docs metas cls msg
  proof -
    have "?pg (generate_prompt query_text docs metas) = Inl (Exn cls msg)"
      using post by (rule post_generate_raises)
    then have "query_ollama eng (generate_prompt query_text docs metas)
        = Inr (JString connection_failed)"
      using cls by (simp add: query_ollama_configured [OF assms])
    then show ?thesis
      using retr ne by (simp add: process_query_def)
  qed
  show ?thesis
    apply (intro conjI allI impI)
    subgoal by (rule returns)
    subgoal by (rule failure)
    subgoal by (rule post_generate_raises)
    subgoal by (elim conjE) (rule not_string)
    subgoal by (rule messages_distinct)
    subgoal by (elim conjE) (rule scenario)
    done
qed

text \<open>
  The theorem for the example engine, whose backend refuses the connection, for the
  engine whose reply does not arrive in time, and for the one that answers with HTTP
  status 500.
\<close>

theorem generation_returns_string_witness:
  "base_url (ollama_config example_engine) = Some ''http://localhost:11434''
   \<and> model (ollama_config example_engine) = Some ''llama3.1:8b''
   \<and> requests_post example_engine (generate_url ''http://localhost:11434'')
        (generate_payload (ollama_config example_engine) ''llama3.1:8b'' ''Frage'')
      = Inl (Exn ConnectionError ''Connection refused'')
   \<and> query_ollama example_engine ''Frage'' = Inr (JString connection_failed)
   \<and> retrieve_documents example_engine ''Wie lange dauert das Studium?'' 5
       = ([''Die Regelstudienzeit'', ''betraegt'', ''vier Semester''],
          [example_meta 1, example_meta 2, example_meta 1])
   \<and> process_query example_engine ''Wie lange dauert das Studium?'' 5
       = Inr [(''answer'', RStr connection_failed),
              (''sources'', RSources [example_source 1, example_source 2]),
              (''query'', RStr ''Wie lange dauert das Studium?''),
              (''success'', RBool True),
              (''context_count'', RInt 3)]
   \<and> requests_post read_timeout_engine (generate_url ''http://localhost:11434'')
        (generate_payload (ollama_config read_timeout_engine) ''llama3.1:8b'' ''Frage'')
      = Inl (Exn ReadTimeout ''Read timed out'')
   \<and> query_ollama read_timeout_engine ''Frage'' = Inr (JString request_timed_out)
   \<and> post_generate server_error_engine (generate_url ''http://localhost:11434'')
        (generate_payload (ollama_config server_error_engine) ''llama3.1:8b'' ''Frage'')
      = Inl (Exn OtherException ''500 Server Error'')
   \<and> query_ollama server_error_engine ''Frage''
      = Inr (JString ''Fehler bei der Anfrage: 500 Server Error'')"
proof -
  let ?b = "''http://localhost:11434''" and ?m = "''llama3.1:8b''"
  have b: "base_url (ollama_config example_engine) = Some ?b"
    and m: "model (ollama_config example_engine) = Some ?m"
    by (simp_all add: example_engine_def)
  have bT: "base_url (ollama_config read_timeout_engine) = Some ?b"
    and mT: "model (ollama_config read_timeout_engine) = Some ?m"
    by (simp_all add: read_timeout_engine_def example_engine_def)
  have bH: "base_url (ollama_config server_error_engine) = Some ?b"
    and mH: "model (ollama_config server_error_engine) = Some ?m"
    by (simp_all add: server_error_engine_def example_engine_def)
  have refused: "requests_post example_engine url pl
      = Inl (Exn ConnectionError ''Connection refused'')" for url pl
    by (simp add: example_engine_def)
  have timeout: "requests_post read_timeout_engine url pl
      = Inl (Exn ReadTimeout ''Read timed out'')" for url pl
    by (simp add: read_timeout_engine_def)
  have status: "post_generate server_error_engine url pl
      = Inl (Exn OtherException ''500 Server Error'')" for url pl
    by (simp add: post_generate_def server_error_engine_def)
  have retr: "retrieve_documents example_engine ''Wie lange dauert das Studium?'' 5
       = ([''Die Regelstudienzeit'', ''betraegt'', ''vier Semester''],
          [example_meta 1, example_meta 2, example_meta 1])"
    by (simp add: retrieve_documents_def retrieve_try_def example_engine_def example_results_def)
  have srcs: "collect_sources [example_meta 1, example_meta 2, example_meta 1] []
      = [example_source 1, example_source 2]"
    by (simp add: source_info_def dict_get_def example_meta_def example_source_def)
  note inst = generation_returns_string
    [OF b m, of "''Frage''" "''Wie lange dauert das Studium?''" 5]
  note failure = inst [THEN conjunct2, THEN conjunct1, rule_format]
  note raises = inst [THEN conjunct2, THEN conjunct2, THEN conjunct1, rule_format]
  note scenario = inst [THEN conjunct2, THEN conjunct2, THEN conjunct2, THEN conjunct2,
      THEN conjunct2, rule_format]
  have 1: "query_ollama example_engine ''Frage'' = Inr (JString connection_failed)"
  proof -
    have "post_generate example_engine (generate_url ?b)
        (generate_payload (ollama_config example_engine) ?m ''Frage'')
        = Inl (Exn ConnectionError ''Connection refused'')"
      by (rule raises) (rule refused)
    then have "query_ollama example_engine ''Frage''
        = Inr (JString (if is_connection_error ConnectionError then connection_failed
                        else if is_timeout ConnectionError then request_timed_out
                        else ''Fehler bei der Anfrage: '' @ ''Connection refused''))"
      by (rule failure)
    then show ?thesis by (simp add: is_connection_error_def)
  qed
  have 2: "process_query example_engine ''Wie lange dauert das Studium?'' 5
       = Inr [(''answer'', RStr connection_failed),
              (''sources'', RSources [example_source 1, example_source 2]),
              (''query'', RStr ''Wie lange dauert das Studium?''),
              (''success'', RBool True),
              (''context_count'', RInt 3)]"
  proof -
    have conn: "is_connection_error ConnectionError" by (simp add: is_connection_error_def)
    have ne: "[''Die Regelstudienzeit'', ''betraegt'', ''vier Semester''] \<noteq> []" by simp
    have "process_query example_engine ''Wie lange dauert das Studium?'' 5
       = Inr [(''answer'', RStr connection_failed),
              (''sources'', RSources (collect_sources
                  [example_meta 1, example_meta 2, example_meta 1] [])),
              (''query'', RStr ''Wie lange dauert das Studium?''),
              (''success'', RBool True),
              (''context_count'', RInt (int (length
                  [''Die Regelstudienzeit'', ''betraegt'', ''vier Semester''])))]"
      by (rule scenario [OF conjI [OF retr conjI [OF ne conjI [OF refused conn]]]])
    then show ?thesis by (simp only: srcs) simp
  qed
  have 3: "query_ollama read_timeout_engine ''Frage'' = Inr (JString request_timed_out)"
  proof -
    note instT = generation_returns_string [OF bT mT, of "''Frage''"]
    have "post_generate read_timeout_engine (generate_url ?b)
        (generate_payload (ollama_config read_timeout_engine) ?m ''Frage'')
        = Inl (Exn ReadTimeout ''Read timed out'')"
      by (rule instT [THEN conjunct2, THEN conjunct2, THEN conjunct1, rule_format])
         (rule timeout)
    then have "query_ollama read_timeout_engine ''Frage''
        = Inr (JString (if is_connection_error ReadTimeout then connection_failed
                        else if is_timeout ReadTimeout then request_timed_out
                        else ''Fehler bei der Anfrage: '' @ ''Read timed out''))"
      by (rule instT [THEN conjunct2, THEN conjunct1, rule_format])
    then show ?thesis by (simp add: is_connection_error_def is_timeout_def)
  qed
  have 4: "query_ollama server_error_engine ''Frage''
      = Inr (JString ''Fehler bei der Anfrage: 500 Server Error'')"
  proof -
    note instH = generation_returns_string [OF bH mH, of "''Frage''"]
    have "query_ollama server_error_engine ''Frage''
        = Inr (JString (if is_connection_error OtherException then connection_failed
                        else if is_timeout OtherException then request_timed_out
                        else ''Fehler bei der Anfrage: '' @ ''500 Server Error''))"
      by (rule instH [THEN conjunct2, THEN conjunct1, rule_format]) (rule status)
    then show ?thesis by (simp add: is_connection_error_def is_timeout_def)
  qed
  show ?thesis
    using b m refused 1 retr 2 timeout 3 status 4 by (intro conjI)
qed

text \<open>
  The statement of the specification fails in three ways. For a configuration whose
  \<^verbatim>\<open>ollama\<close> section has no \<^verbatim>\<open>model\<close> the payload cannot be built, so the generation
  call raises \<^verbatim>\<open>KeyError\<close>, and \<^verbatim>\<open>process_query\<close> raises it too although retrieval found
  passages. A connect timeout is a timeout, and it is answered with the connection
  message, not with the timeout message. A reply whose \<open>response\<close> is \<^verbatim>\<open>null\<close> makes the
  call return \<^verbatim>\<open>None\<close>, which is not a string.
\<close>

theorem generation_returns_string_counterexample:
  "query_ollama no_model_engine ''Frage''
     = Inl (Exn KeyError ([CHR 0x27] @ ''model'' @ [CHR 0x27]))
   \<and> process_query no_model_engine ''Wie lange dauert das Studium?'' 5
     = Inl (Exn KeyError ([CHR 0x27] @ ''model'' @ [CHR 0x27]))
   \<and> is_timeout ConnectTimeout
   \<and> query_ollama connect_timeout_engine ''Frage'' = Inr (JString connection_failed)
   \<and> connection_failed \<noteq> request_timed_out
   \<and> query_ollama null_reply_engine ''Frage'' = Inr JNull
   \<and> process_query null_reply_engine ''Wie lange dauert das Studium?'' 5
     = Inr [(''answer'', RNone),
            (''sources'', RSources [example_source 1, example_source 2]),
            (''query'', RStr ''Wie lange dauert das Studium?''),
            (''success'', RBool True),
            (''context_count'', RInt 3)]"
proof -
  have retr: "retrieve_documents eng q n
       = ([''Die Regelstudienzeit'', ''betraegt'', ''vier Semester''],
          [example_meta 1, example_meta 2, example_meta 1])"
    if "nlp eng = nlp example_engine" "collection_query eng = collection_query example_engine"
    for eng q n
    using that
    by (simp add: retrieve_documents_def retrieve_try_def example_engine_def example_results_def)
  have srcs: "collect_sources [example_meta 1, example_meta 2, example_meta 1] []
      = [example_source 1, example_source 2]"
    by (simp add: source_info_def dict_get_def example_meta_def example_source_def)
  have 1: "query_ollama no_model_engine p = Inl (Exn KeyError ([CHR 0x27] @ ''model'' @ [CHR 0x27]))"
    for p
    by (simp add: query_ollama_def no_model_engine_def example_engine_def)
  have same: "nlp no_model_engine = nlp example_engine"
      "collection_query no_model_engine = collection_query example_engine"
      "nlp null_reply_engine = nlp example_engine"
      "collection_query null_reply_engine = collection_query example_engine"
    by (simp_all add: no_model_engine_def null_reply_engine_def)
  have 2: "process_query no_model_engine ''Wie lange dauert das Studium?'' 5
     = Inl (Exn KeyError ([CHR 0x27] @ ''model'' @ [CHR 0x27]))"
    by (simp add: process_query_def 1 retr [OF same(1,2)])
  have 3: "query_ollama connect_timeout_engine ''Frage'' = Inr (JString connection_failed)"
    by (simp add: query_ollama_def post_generate_def connect_timeout_engine_def example_engine_def
        is_connection_error_def)
  have 4: "query_ollama null_reply_engine p = Inr JNull" for p
    by (simp add: query_ollama_def post_generate_def null_reply_engine_def example_engine_def)
  have 5: "process_query null_reply_engine ''Wie lange dauert das Studium?'' 5
     = Inr [(''answer'', RNone),
            (''sources'', RSources [example_source 1, example_source 2]),
            (''query'', RStr ''Wie lange dauert das Studium?''),
            (''success'', RBool True),
            (''context_count'', RInt 3)]"
    by (simp add: process_query_def 4 retr [OF same(3,4)] srcs del: collect_sources.simps)
  have 6: "is_timeout ConnectTimeout"
    by (simp add: is_timeout_def)
  show ?thesis
    using 1 [of "''Frage''"] 2 6 3 messages_distinct 4 [of "''Frage''"] 5 by (intro conjI)
qed

text \<open>
  C7: for every list of retrieved metadata entries, the sources list that
  \<^verbatim>\<open>process_query\<close> assembles holds every distinct source record (all five fields
  compared) exactly once, in the order of first appearance: it has no repeats, it has the
  same elements as the list of source records, the list assembled from any prefix of the
  entries is a prefix of it, and it is the list of first occurrences. On the success path
  it is the value of the key \<open>sources\<close> of the result.
\<close>

theorem sources_first_seen_once:
  "distinct (collect_sources metadatas [])
   \<and> set (collect_sources metadatas []) = set (map source_info metadatas)
   \<and> (\<forall>n. prefix (collect_sources (take n metadatas) []) (collect_sources metadatas []))
   \<and> collect_sources metadatas [] = rev (remdups (rev (map source_info metadatas)))
   \<and> (\<forall>r. process_query eng query_text n_results = Inr r
            \<and> retrieve_documents eng query_text n_results = (docs, metadatas) \<and> docs \<noteq> []
          \<longrightarrow> map_of r ''sources'' = Some (RSources (collect_sources metadatas [])))"
proof -
  have "prefix (collect_sources (take n metadatas) []) (collect_sources metadatas [])" for n
    using collect_sources_append [of "take n metadatas" "drop n metadatas" "[]"]
      collect_sources_prefix [of "collect_sources (take n metadatas) []" "drop n metadatas"]
    by simp
  moreover have "map_of r ''sources'' = Some (RSources (collect_sources metadatas []))"
    if "process_query eng query_text n_results = Inr r"
      "retrieve_documents eng query_text n_results = (docs, metadatas)" "docs \<noteq> []" for r
    using that by (auto simp: process_query_def split: sum.splits)
  ultimately show ?thesis
    by (simp add: distinct_collect_sources set_collect_sources collect_sources_first_seen)
qed

text \<open>
  The theorem for the example engine: of the three retrieved entries the third repeats
  the first, and the result lists the two distinct sources in the order they were seen.
\<close>

theorem sources_first_seen_once_witness:
  "retrieve_documents example_engine ''Wie lange dauert das Studium?'' 5
       = ([''Die Regelstudienzeit'', ''betraegt'', ''vier Semester''],
          [example_meta 1, example_meta 2, example_meta 1])
   \<and> map source_info [example_meta 1, example_meta 2, example_meta 1]
       = [example_source 1, example_source 2, example_source 1]
   \<and> collect_sources [example_meta 1, example_meta 2, example_meta 1] []
       = [example_source 1, example_source 2]
   \<and> (\<exists>r. process_query example_engine ''Wie lange dauert das Studium?'' 5 = Inr r
          \<and> map_of r ''sources'' = Some (RSources [example_source 1, example_source 2]))"
proof -
  have retr: "retrieve_documents example_engine ''Wie lange dauert das Studium?'' 5
       = ([''Die Regelstudienzeit'', ''betraegt'', ''vier Semester''],
          [example_meta 1, example_meta 2, example_meta 1])"
    by (simp add: retrieve_documents_def retrieve_try_def example_engine_def example_results_def)
  have infos: "map source_info [example_meta 1, example_meta 2, example_meta 1]
       = [example_source 1, example_source 2, example_source 1]"
    by (simp add: source_info_def dict_get_def example_meta_def example_source_def)
  have ne: "example_source 1 \<noteq> example_source 2"
    by (simp add: example_source_def)
  have srcs: "collect_sources [example_meta 1, example_meta 2, example_meta 1] []
      = [example_source 1, example_source 2]"
    using sources_first_seen_once [of "[example_meta 1, example_meta 2, example_meta 1]"] ne
    unfolding infos by simp
  have answer: "query_ollama example_engine p = Inr (JString connection_failed)" for p
    by (simp add: query_ollama_def post_generate_def example_engine_def is_connection_error_def)
  obtain r where r: "process_query example_engine ''Wie lange dauert das Studium?'' 5 = Inr r"
    by (simp add: process_query_def retr answer)
  have "map_of r ''sources''
      = Some (RSources (collect_sources [example_meta 1, example_meta 2, example_meta 1] []))"
    using sources_first_seen_once
      [of "[example_meta 1, example_meta 2, example_meta 1]" example_engine
        "''Wie lange dauert das Studium?''" 5
        "[''Die Regelstudienzeit'', ''betraegt'', ''vier Semester'']"]
      r retr by simp
  then have m: "map_of r ''sources'' = Some (RSources [example_source 1, example_source 2])"
    by (simp only: srcs)
  show ?thesis
    using retr infos srcs r m by (intro conjI exI [of _ r])
qed

text \<open>
  C9 (as amended): a result that \<^verbatim>\<open>process_query\<close> returns on the success path has the
  five keys \<open>answer\<close>, \<open>sources\<close>, \<open>query\<close>, \<open>success\<close> and \<open>context_count\<close>, and
  \<open>context_count\<close> is the number of retrieved passages; a result on the empty-retrieval
  path has the four keys \<open>answer\<close>, \<open>sources\<close>, \<open>query\<close> and \<open>success\<close> and no
  \<open>context_count\<close>.
\<close>

theorem query_result_fields:
  assumes "process_query eng query_text n_results = Inr r"
  shows "(fst (retrieve_documents eng query_text n_results) = []
          \<and> map fst r = [''answer'', ''sources'', ''query'', ''success'']
          \<and> map_of r ''context_count'' = None)
       \<or> (fst (retrieve_documents eng query_text n_results) \<noteq> []
          \<and> map fst r = [''answer'', ''sources'', ''query'', ''success'', ''context_count'']
          \<and> map_of r ''context_count''
              = Some (RInt (int (length (fst (retrieve_documents eng query_text n_results))))))"
  using assms
  by (cases "retrieve_documents eng query_text n_results")
     (auto simp: process_query_def split: if_splits sum.splits)

text \<open>
  The theorem on the success path (the example engine, three passages) and on the
  empty-retrieval path (a query whose embedding has norm zero).
\<close>

theorem query_result_fields_witness:
  "(\<exists>r. process_query example_engine ''Wie lange dauert das Studium?'' 5 = Inr r
        \<and> fst (retrieve_documents example_engine ''Wie lange dauert das Studium?'' 5) \<noteq> []
        \<and> map fst r = [''answer'', ''sources'', ''query'', ''success'', ''context_count'']
        \<and> map_of r ''context_count'' = Some (RInt 3))
   \<and> (\<exists>r. process_query degenerate_engine
            ''???'' 5 = Inr r
        \<and> fst (retrieve_documents
              degenerate_engine ''???'' 5) = []
        \<and> map fst r = [''answer'', ''sources'', ''query'', ''success'']
        \<and> map_of r ''context_count'' = None)"
proof -
  let ?E0 = "degenerate_engine"
  have retr: "retrieve_documents example_engine ''Wie lange dauert das Studium?'' 5
       = ([''Die Regelstudienzeit'', ''betraegt'', ''vier Semester''],
          [example_meta 1, example_meta 2, example_meta 1])"
    by (simp add: retrieve_documents_def retrieve_try_def example_engine_def example_results_def)
  have retr0: "retrieve_documents ?E0 ''???'' 5 = ([], [])"
    by (simp add: retrieve_documents_def retrieve_try_def degenerate_engine_def)
  have answer: "query_ollama example_engine p = Inr (JString connection_failed)" for p
    by (simp add: query_ollama_def post_generate_def example_engine_def is_connection_error_def)
  obtain r where r: "process_query example_engine ''Wie lange dauert das Studium?'' 5 = Inr r"
    by (simp add: process_query_def retr answer)
  obtain r0 where r0: "process_query ?E0 ''???'' 5 = Inr r0"
    by (simp add: process_query_def retr0)
  show ?thesis
    using query_result_fields [OF r] query_result_fields [OF r0] r r0
    unfolding retr retr0 by simp
qed

text \<open>
  The statement of the specification fails on the empty-retrieval path: for a query whose embedding has
  norm zero the result has four keys, and \<open>context_count\<close> is not one of them.
\<close>

theorem query_result_fields_counterexample:
  "process_query degenerate_engine ''???'' 5
     = Inr [(''answer'', RStr no_documents_found), (''sources'', RSources []),
            (''query'', RStr ''???''), (''success'', RBool False)]
   \<and> map_of [(''answer'', RStr no_documents_found), (''sources'', RSources []),
              (''query'', RStr ''???''), (''success'', RBool False)] ''context_count'' = None"
  by (simp add: process_query_def retrieve_documents_def retrieve_try_def degenerate_engine_def)

text \<open>
  C10: \<^verbatim>\<open>retrieve_documents\<close> raises nothing. Whatever is raised inside it is answered
  with the pair of two empty lists: an error of the embedding model, an error of the store
  query, a reply of the store whose \<open>documents\<close> or \<open>metadatas\<close> entry is missing,
  \<^verbatim>\<open>None\<close> or an empty list, and any other exception of its body. That pair is what an
  empty retrieval returns, so a caller cannot tell the two apart.
\<close>

theorem retrieve_documents_total:
  "(\<forall>e. nlp eng query_text = Inl e \<longrightarrow> retrieve_documents eng query_text n_results = ([], []))
   \<and> (\<forall>d e. nlp eng query_text = Inr d \<and> collection_query eng (vector d) n_results = Inl e
          \<longrightarrow> retrieve_documents eng query_text n_results = ([], []))
   \<and> (\<forall>d results. nlp eng query_text = Inr d
            \<and> collection_query eng (vector d) n_results = Inr results
            \<and> (qr_documents results \<in> {Absent, PyNone, Present []}
               \<or> qr_metadatas results \<in> {Absent, PyNone, Present []})
          \<longrightarrow> retrieve_documents eng query_text n_results = ([], []))
   \<and> (\<forall>e. retrieve_try eng query_text n_results = Inl e
          \<longrightarrow> retrieve_documents eng query_text n_results = ([], []))"
  by (auto simp: retrieve_documents_def retrieve_try_def split: entry.splits list.splits)

text \<open>
  The theorem for an embedding model that raises, for a store whose query raises, and for
  a reply of the store that has documents and \<^verbatim>\<open>None\<close> for the metadata.
\<close>

theorem retrieve_documents_total_witness:
  "retrieve_documents
     (example_engine\<lparr>nlp := \<lambda>text. Inl (Exn OtherException ''model not loaded'')\<rparr>)
     ''Wie lange dauert das Studium?'' 5 = ([], [])
   \<and> retrieve_documents
     (example_engine\<lparr>collection_query := \<lambda>embedding n. Inl (Exn OtherException ''store closed'')\<rparr>)
     ''Wie lange dauert das Studium?'' 5 = ([], [])
   \<and> retrieve_documents
     (example_engine\<lparr>collection_query := \<lambda>embedding n.
        Inr \<lparr>qr_documents = Present [[''Die Regelstudienzeit'']], qr_metadatas = PyNone\<rparr>\<rparr>)
     ''Wie lange dauert das Studium?'' 5 = ([], [])"
proof -
  let ?q = "''Wie lange dauert das Studium?''"
  let ?E1 = "example_engine\<lparr>nlp := \<lambda>text. Inl (Exn OtherException ''model not loaded'')\<rparr>"
  let ?E2 = "example_engine\<lparr>collection_query :=
      \<lambda>embedding n. Inl (Exn OtherException ''store closed'')\<rparr>"
  let ?E3 = "example_engine\<lparr>collection_query := \<lambda>embedding n.
        Inr \<lparr>qr_documents = Present [[''Die Regelstudienzeit'']], qr_metadatas = PyNone\<rparr>\<rparr>"
  have 1: "nlp ?E1 ?q = Inl (Exn OtherException ''model not loaded'')"
    by simp
  have 2: "nlp ?E2 ?q = Inr \<lparr>vector_norm = 1, vector = [1]\<rparr>
      \<and> collection_query ?E2 (vector \<lparr>vector_norm = 1, vector = [1]\<rparr>) 5
          = Inl (Exn OtherException ''store closed'')"
    by (simp add: example_engine_def)
  have 3: "nlp ?E3 ?q = Inr \<lparr>vector_norm = 1, vector = [1]\<rparr>
      \<and> collection_query ?E3 (vector \<lparr>vector_norm = 1, vector = [1]\<rparr>) 5
          = Inr \<lparr>qr_documents = Present [[''Die Regelstudienzeit'']], qr_metadatas = PyNone\<rparr>
      \<and> (qr_documents \<lparr>qr_documents = Present [[''Die Regelstudienzeit'']], qr_metadatas = PyNone\<rparr>
            \<in> {Absent, PyNone, Present []}
         \<or> qr_metadatas \<lparr>qr_documents = Present [[''Die Regelstudienzeit'']], qr_metadatas = PyNone\<rparr>
            \<in> {Absent, PyNone, Present []})"
    by (simp add: example_engine_def)
  have a: "retrieve_documents ?E1 ?q 5 = ([], [])"
    using retrieve_documents_total [of ?E1 ?q 5] 1 by blast
  have b: "retrieve_documents ?E2 ?q 5 = ([], [])"
    using retrieve_documents_total [of ?E2 ?q 5] 2 by blast
  have c: "retrieve_documents ?E3 ?q 5 = ([], [])"
    using retrieve_documents_total [of ?E3 ?q 5] 3 by blast
  show ?thesis
    using a b c by (intro conjI)
qed

end
